theory Spec2Isabelle
  imports Complex_Main
begin

section \<open>Numbers\<close>

text \<open>
  The simulators compute with JavaScript numbers. In the controllers and the plants
  finite numbers are modelled as exact reals (no rounding, no overflow); the frame
  loop, whose step count depends on rounding, is modelled with rounding. A value that
  may be non-finite in the source (\<^verbatim>\<open>Infinity\<close>, \<^verbatim>\<open>-Infinity\<close> or \<^verbatim>\<open>NaN\<close>, which
  arise from a division by zero) has type
  \<open>jsnum\<close>: \<open>Some r\<close> is the finite number \<open>r\<close> and \<open>None\<close> is any non-finite value.
  Addition, multiplication and division with a non-finite operand give a non-finite
  result, so the three non-finite values need not be told apart.
\<close>

type_synonym jsnum = "real option"

definition js_div :: "real \<Rightarrow> real \<Rightarrow> jsnum" where
  "js_div a b = (if b = 0 then None else Some (a / b))"

definition js_add :: "jsnum \<Rightarrow> jsnum \<Rightarrow> jsnum" where
  "js_add a b = (case a of None \<Rightarrow> None | Some u \<Rightarrow> (case b of None \<Rightarrow> None | Some v \<Rightarrow> Some (u + v)))"

definition js_mul :: "real \<Rightarrow> jsnum \<Rightarrow> jsnum" where
  "js_mul k a = (case a of None \<Rightarrow> None | Some v \<Rightarrow> Some (k * v))"

text \<open>
  \<^verbatim>\<open>Math.max(lo, Math.min(hi, v))\<close> with bounds that default to \<^verbatim>\<open>-Infinity\<close> and
  \<^verbatim>\<open>Infinity\<close>: a bound is \<open>None\<close> when it is left at its infinite default and
  \<open>Some b\<close> when the caller configured the finite number \<open>b\<close>.
\<close>

definition math_min :: "real option \<Rightarrow> real \<Rightarrow> real" where
  "math_min hi v = (case hi of None \<Rightarrow> v | Some h \<Rightarrow> min h v)"

definition math_max :: "real option \<Rightarrow> real \<Rightarrow> real" where
  "math_max lo v = (case lo of None \<Rightarrow> v | Some l \<Rightarrow> max l v)"

definition clamp :: "real \<Rightarrow> real option \<Rightarrow> real option \<Rightarrow> real" where
  "clamp v lo hi = math_max lo (math_min hi v)"

definition in_bounds :: "real option \<Rightarrow> real option \<Rightarrow> real \<Rightarrow> bool" where
  "in_bounds lo hi v =
     ((case lo of None \<Rightarrow> True | Some l \<Rightarrow> l \<le> v) \<and> (case hi of None \<Rightarrow> True | Some h \<Rightarrow> v \<le> h))"

definition bounds_ordered :: "real option \<Rightarrow> real option \<Rightarrow> bool" where
  "bounds_ordered lo hi =
     (case lo of None \<Rightarrow> True | Some l \<Rightarrow> (case hi of None \<Rightarrow> True | Some h \<Rightarrow> l \<le> h))"

section \<open>PID controllers\<close>

record gains =
  kp :: real
  ki :: real
  kd :: real

record pid_config =
  integralMin :: "real option"
  integralMax :: "real option"

record pid_state =
  integral :: real
  prevError :: real

subsection \<open>utils/pidController.js\<close>

text \<open>
  \<^verbatim>\<open>computePID\<close> returns \<^verbatim>\<open>{ output, integral, prevError }\<close>: the output paired with the
  two fields that \<^verbatim>\<open>compute\<close> copies back into the controller state.
\<close>

text \<open>\<^verbatim>\<open>kp * error + ki * newIntegral + kd * derivative\<close>, the output line of both controllers.\<close>

definition pid_output :: "gains \<Rightarrow> real \<Rightarrow> real \<Rightarrow> jsnum \<Rightarrow> jsnum" where
  "pid_output g err integ d = js_add (Some (kp g * err + ki g * integ)) (js_mul (kd g) d)"

definition computePID ::
  "real \<Rightarrow> real \<Rightarrow> real \<Rightarrow> gains \<Rightarrow> real \<Rightarrow> real option \<Rightarrow> real option \<Rightarrow> jsnum \<times> pid_state" where
  "computePID err integ prevErr g dt iMin iMax =
     (let newIntegral = math_max iMin (math_min iMax (integ + err * dt));
          derivative = js_div (err - prevErr) dt;
          out = pid_output g err newIntegral derivative
      in (out, \<lparr>integral = newIntegral, prevError = err\<rparr>))"

definition pid_create :: pid_state where
  "pid_create = \<lparr>integral = 0, prevError = 0\<rparr>"

definition pid_compute :: "pid_config \<Rightarrow> pid_state \<Rightarrow> real \<Rightarrow> gains \<Rightarrow> real \<Rightarrow> jsnum \<times> pid_state" where
  "pid_compute cfg st err g dt =
     (let result = computePID err (integral st) (prevError st) g dt (integralMin cfg) (integralMax cfg)
      in (fst result, st\<lparr>integral := integral (snd result), prevError := prevError (snd result)\<rparr>))"

definition pid_reset :: "pid_state \<Rightarrow> pid_state" where
  "pid_reset st = st\<lparr>integral := 0, prevError := 0\<rparr>"

definition pid_resetIntegral :: "pid_state \<Rightarrow> pid_state" where
  "pid_resetIntegral st = st\<lparr>integral := 0\<rparr>"

subsection \<open>The controller embedded in the standalone simulators\<close>

text \<open>
  \<^verbatim>\<open>createPIDController\<close> of InvertedPendulumStandalone.jsx and
  DroneAltitudeStandalone.jsx (the two copies are identical): the state gains an
  \<^verbatim>\<open>initialized\<close> flag and the window of raw derivatives, the configuration the
  window size.
\<close>

record pidf_config = pid_config +
  derivativeWindowSize :: int

record pidf_state = pid_state +
  initialized :: bool
  derivativeHistory :: "jsnum list"

record pid_result =
  pidOutput :: jsnum
  errorP :: real
  errorI :: real
  errorD :: jsnum

definition default_config :: pidf_config where
  "default_config = \<lparr>integralMin = None, integralMax = None, derivativeWindowSize = 5\<rparr>"

definition createPIDController :: pidf_state where
  "createPIDController = \<lparr>integral = 0, prevError = 0, initialized = False, derivativeHistory = []\<rparr>"

text \<open>\<^verbatim>\<open>history.reduce((sum, val) => sum + val, 0) / history.length\<close>; \<^verbatim>\<open>0 / 0\<close> is \<^verbatim>\<open>NaN\<close>.\<close>

definition history_sum :: "jsnum list \<Rightarrow> jsnum" where
  "history_sum h = foldl js_add (Some 0) h"

definition history_mean :: "jsnum list \<Rightarrow> jsnum" where
  "history_mean h = (case history_sum h of None \<Rightarrow> None | Some s \<Rightarrow> js_div s (real (length h)))"

definition rawDerivative :: "pidf_state \<Rightarrow> real \<Rightarrow> real \<Rightarrow> jsnum" where
  "rawDerivative st err dt = (if initialized st then js_div (err - prevError st) dt else Some 0)"

text \<open>\<^verbatim>\<open>push\<close>, then \<^verbatim>\<open>shift\<close> when the length exceeds the window size.\<close>

definition push_derivative :: "int \<Rightarrow> jsnum list \<Rightarrow> jsnum \<Rightarrow> jsnum list" where
  "push_derivative w h d =
     (let pushed = h @ [d] in if int (length pushed) > w then tl pushed else pushed)"

definition compute :: "pidf_config \<Rightarrow> pidf_state \<Rightarrow> real \<Rightarrow> gains \<Rightarrow> real \<Rightarrow> pid_result \<times> pidf_state" where
  "compute cfg st err g dt =
     (let newIntegral = math_max (integralMin cfg) (math_min (integralMax cfg) (integral st + err * dt));
          history = push_derivative (derivativeWindowSize cfg) (derivativeHistory st) (rawDerivative st err dt);
          derivative = history_mean history;
          out = pid_output g err newIntegral derivative
      in (\<lparr>pidOutput = out, errorP = err, errorI = newIntegral, errorD = derivative\<rparr>,
          st\<lparr>integral := newIntegral, prevError := err, initialized := True,
             derivativeHistory := history\<rparr>))"

definition reset :: "pidf_state \<Rightarrow> pidf_state" where
  "reset st = st\<lparr>integral := 0, prevError := 0, initialized := False, derivativeHistory := []\<rparr>"

definition resetIntegral :: "pidf_state \<Rightarrow> pidf_state" where
  "resetIntegral st = st\<lparr>integral := 0\<rparr>"

text \<open>A sequence of \<^verbatim>\<open>compute\<close> calls, each with its own error, gains and timestep.\<close>

fun pid_computes :: "pid_config \<Rightarrow> pid_state \<Rightarrow> (real \<times> gains \<times> real) list \<Rightarrow> pid_state" where
  "pid_computes cfg st [] = st"
| "pid_computes cfg st ((err, g, dt) # cs) = pid_computes cfg (snd (pid_compute cfg st err g dt)) cs"

fun computes :: "pidf_config \<Rightarrow> pidf_state \<Rightarrow> (real \<times> gains \<times> real) list \<Rightarrow> pidf_state" where
  "computes cfg st [] = st"
| "computes cfg st ((err, g, dt) # cs) = computes cfg (snd (compute cfg st err g dt)) cs"

text \<open>The window after pushing a list of raw derivatives, one \<^verbatim>\<open>compute\<close> call each.\<close>

fun pushes :: "int \<Rightarrow> jsnum list \<Rightarrow> jsnum list \<Rightarrow> jsnum list" where
  "pushes w h [] = h"
| "pushes w h (d # ds) = pushes w (push_derivative w h d) ds"

section \<open>Plant models\<close>

text \<open>
  Every simulator keeps its physics state in one mutable object with a \<^verbatim>\<open>time\<close> field.
  A step function takes the state and returns the updated one. The records are
  extensible: a step function leaves every field it does not name untouched, so a
  variant whose state object carries further fields (the PID terms in
  \<^verbatim>\<open>drone_simulator.jsx\<close> and in the pendulum of usePhysicsSimulation.js) is covered by the
  same definition. \<^verbatim>\<open>Math.random()\<close> is a parameter \<open>rnd\<close> of the step.
\<close>

record sim_state =
  time :: real

record plant_state = sim_state +
  setpoint :: real

subsection \<open>Thermal tank (HotTub.jsx)\<close>

record tub_state = plant_state +
  temperature :: real
  ambient :: real
  heaterPower :: real

definition WATER_MASS :: real where "WATER_MASS = 1500"
definition SPECIFIC_HEAT :: real where "SPECIFIC_HEAT = 4186"
definition THERMAL_MASS :: real where "THERMAL_MASS = WATER_MASS * SPECIFIC_HEAT"
definition HEAT_LOSS_COEFFICIENT :: real where "HEAT_LOSS_COEFFICIENT = 500"
definition MAX_HEATER_POWER :: real where "MAX_HEATER_POWER = 15000"
definition MIN_HEATER_POWER :: real where "MIN_HEATER_POWER = 0"
definition tub_DT :: real where "tub_DT = 1 / 10"
definition tub_TIME_SCALE :: real where "tub_TIME_SCALE = 600"

definition tub_simulateStep :: "real \<Rightarrow> 'a tub_state_scheme \<Rightarrow> 'a tub_state_scheme" where
  "tub_simulateStep heaterPower0 s =
     (let pw = max MIN_HEATER_POWER (min MAX_HEATER_POWER heaterPower0);
          s1 = s\<lparr>heaterPower := pw\<rparr>;
          heatLoss = HEAT_LOSS_COEFFICIENT * (temperature s1 - ambient s1);
          netPower = pw - heatLoss;
          dT = (netPower * tub_DT) / THERMAL_MASS;
          s2 = s1\<lparr>temperature := temperature s1 + dT\<rparr>;
          s3 = s2\<lparr>time := time s2 + tub_DT\<rparr>
      in s3\<lparr>temperature := max 0 (min 50 (temperature s3))\<rparr>)"

text \<open>
  The steady-state temperature the spec names: ambient plus power over the heat-loss
  coefficient, clamped to the range of the tank.
\<close>

definition tub_steady :: "real \<Rightarrow> real \<Rightarrow> real" where
  "tub_steady a p = max 0 (min 50 (a + p / HEAT_LOSS_COEFFICIENT))"

text \<open>The share of the gap to the unclamped steady state that one step closes.\<close>

definition tub_rate :: real where
  "tub_rate = HEAT_LOSS_COEFFICIENT * tub_DT / THERMAL_MASS"

subsection \<open>Thrust body (HotTub.jsx, second component; \<^verbatim>\<open>drone_simulator.jsx\<close>)\<close>

record drone_state = plant_state +
  altitude :: real
  velocity :: real
  mass :: real
  thrust :: real
  crashed :: bool

definition GRAVITY :: real where "GRAVITY = 981 / 100"
definition BASE_DRONE_MASS :: real where "BASE_DRONE_MASS = 2"
definition MASS_INCREMENT :: real where "MASS_INCREMENT = 1"
definition MAX_THRUST :: real where "MAX_THRUST = 500"
definition MIN_THRUST :: real where "MIN_THRUST = - 500"
definition drone_DT :: real where "drone_DT = 1 / 1000"
definition MAX_ALTITUDE :: real where "MAX_ALTITUDE = 100"
definition SETPOINT_MIN :: real where "SETPOINT_MIN = 20"
definition SETPOINT_MAX :: real where "SETPOINT_MAX = 80"

text \<open>The crash test that ends both drone steps.\<close>

definition crash_check :: "'a drone_state_scheme \<Rightarrow> 'a drone_state_scheme" where
  "crash_check s =
     (if altitude s \<le> 0 \<or> altitude s \<ge> MAX_ALTITUDE
      then s\<lparr>crashed := True, altitude := max 0 (min MAX_ALTITUDE (altitude s)), velocity := 0\<rparr>
      else s)"

definition drone_simulateStep :: "real \<Rightarrow> 'a drone_state_scheme \<Rightarrow> 'a drone_state_scheme" where
  "drone_simulateStep controlSignal0 s =
     (if crashed s then s
      else
        let controlSignal = max MIN_THRUST (min MAX_THRUST controlSignal0);
            s1 = s\<lparr>thrust := controlSignal\<rparr>;
            baseHoverThrust = BASE_DRONE_MASS * GRAVITY;
            actualThrust = baseHoverThrust + controlSignal;
            gravityForce = mass s1 * GRAVITY;
            netForce = actualThrust - gravityForce;
            acceleration = (if mass s1 > 0 then netForce / mass s1 else 0);
            s2 = s1\<lparr>velocity := velocity s1 + acceleration * drone_DT\<rparr>;
            s3 = s2\<lparr>altitude := altitude s2 + velocity s2 * drone_DT\<rparr>;
            s4 = s3\<lparr>time := time s3 + drone_DT\<rparr>
        in crash_check s4)"

definition drone_resetSimulation :: drone_state where
  "drone_resetSimulation =
     \<lparr>time = 0, setpoint = 50, altitude = 50, velocity = 0, mass = BASE_DRONE_MASS, thrust = 0,
      crashed = False\<rparr>"

text \<open>\<^verbatim>\<open>changeSetpoint\<close> draws the new setpoint with \<^verbatim>\<open>Math.random()\<close>.\<close>

definition drone_changeSetpoint :: "real \<Rightarrow> 'a drone_state_scheme \<Rightarrow> 'a drone_state_scheme" where
  "drone_changeSetpoint rnd s =
     (if crashed s then s else s\<lparr>setpoint := SETPOINT_MIN + rnd * (SETPOINT_MAX - SETPOINT_MIN)\<rparr>)"

definition drone_addWeight :: "'a drone_state_scheme \<Rightarrow> 'a drone_state_scheme" where
  "drone_addWeight s = (if crashed s then s else s\<lparr>mass := mass s + MASS_INCREMENT\<rparr>)"

text \<open>What the component does to its physics state, one event at a time.\<close>

datatype drone_event = Step real | ChangeSetpoint real | AddWeight | Reset

fun drone_apply :: "drone_state \<Rightarrow> drone_event \<Rightarrow> drone_state" where
  "drone_apply s (Step u) = drone_simulateStep u s"
| "drone_apply s (ChangeSetpoint rnd) = drone_changeSetpoint rnd s"
| "drone_apply s AddWeight = drone_addWeight s"
| "drone_apply s Reset = drone_resetSimulation"

subsection \<open>Setpoint profiles and thrust body of DroneAltitudeStandalone.jsx\<close>

text \<open>
  The remainder operator \<^verbatim>\<open>a % b\<close> on finite numbers with \<open>b \<noteq> 0\<close>: the quotient is
  truncated towards zero, so the result has the sign of \<open>a\<close>.
\<close>

definition js_trunc :: "real \<Rightarrow> int" where
  "js_trunc q = (if 0 \<le> q then \<lfloor>q\<rfloor> else \<lceil>q\<rceil>)"

definition js_rem :: "real \<Rightarrow> real \<Rightarrow> real" where
  "js_rem a b = a - b * of_int (js_trunc (a / b))"

datatype setpoint_mode = CONSTANT | SINE | BOX

record setpoint_params =
  setpointMode :: setpoint_mode
  constantSetpoint :: real
  sineAmplitude :: real
  sineFrequency :: real
  boxAmplitude :: real
  boxFrequency :: real

text \<open>
  With \<^verbatim>\<open>boxFrequency\<close> zero the period is \<^verbatim>\<open>Infinity\<close>, \<^verbatim>\<open>time % Infinity\<close> is \<^verbatim>\<open>time\<close> and the
  phase \<^verbatim>\<open>time / Infinity\<close> is zero, so the source returns the upper level.
\<close>

definition box_phase :: "real \<Rightarrow> real \<Rightarrow> real" where
  "box_phase freq t = (if freq = 0 then 0 else (let period = 1 / freq in js_rem t period / period))"

definition calculateSetpoint :: "setpoint_params \<Rightarrow> real \<Rightarrow> real" where
  "calculateSetpoint p t =
     (let baseSetpoint = 50 in
      case setpointMode p of
        CONSTANT \<Rightarrow> constantSetpoint p
      | SINE \<Rightarrow> baseSetpoint + sineAmplitude p * sin (2 * pi * sineFrequency p * t)
      | BOX \<Rightarrow> baseSetpoint + (if box_phase (boxFrequency p) t < 1 / 2 then boxAmplitude p else - boxAmplitude p))"

definition sa_MAX_THRUST :: real where "sa_MAX_THRUST = 2000"
definition sa_MIN_THRUST :: real where "sa_MIN_THRUST = - 2000"

text \<open>
  The standalone step divides by the mass without a guard; with mass zero the
  acceleration is not finite and the step has no value in this model (\<open>None\<close>).
\<close>

definition sa_simulateStep :: "setpoint_params \<Rightarrow> real \<Rightarrow> drone_state \<Rightarrow> drone_state option" where
  "sa_simulateStep p controlSignal s =
     (if crashed s then Some s
      else if mass s = 0 then None
      else
        let thr = max sa_MIN_THRUST (min sa_MAX_THRUST controlSignal);
            s1 = s\<lparr>thrust := thr\<rparr>;
            gravityForce = mass s1 * GRAVITY;
            netForce = thr - gravityForce;
            acceleration = netForce / mass s1;
            s2 = s1\<lparr>velocity := velocity s1 + acceleration * drone_DT\<rparr>;
            s3 = s2\<lparr>altitude := altitude s2 + velocity s2 * drone_DT\<rparr>;
            s4 = s3\<lparr>time := time s3 + drone_DT\<rparr>;
            s5 = s4\<lparr>setpoint := calculateSetpoint p (time s4)\<rparr>
        in Some (crash_check s5))"

subsection \<open>Cart-pendulum\<close>

record cart_state = sim_state +
  theta :: real
  thetaDot :: real
  xPos :: real
  xDot :: real

record pend_state = cart_state +
  fallen :: bool

record sa_pend_state = cart_state +
  force :: real
  floorTilt :: real

datatype failure = Crashed | Fallen

definition PENDULUM_LENGTH :: real where "PENDULUM_LENGTH = 2"
definition PENDULUM_MASS :: real where "PENDULUM_MASS = 1 / 4"
definition CART_MASS :: real where "CART_MASS = 1"
definition FRICTION_CART :: real where "FRICTION_CART = 1 / 10"
definition FRICTION_PENDULUM :: real where "FRICTION_PENDULUM = 1 / 100"
definition NOISE_AMPLITUDE :: real where "NOISE_AMPLITUDE = 2 / 1000"
definition pend_DT :: real where "pend_DT = 1 / 1000"
definition TRACK_WIDTH :: real where "TRACK_WIDTH = 10"
definition sa_TRACK_WIDTH :: real where "sa_TRACK_WIDTH = 20"

text \<open>
  \<^verbatim>\<open>while (theta > Math.PI) theta -= 2 * Math.PI\<close> and
  \<^verbatim>\<open>while (theta < -Math.PI) theta += 2 * Math.PI\<close>.
\<close>

function wrap_down :: "real \<Rightarrow> real" where
  "wrap_down th = (if th > pi then wrap_down (th - 2 * pi) else th)"
  by pat_completeness auto
termination
proof (relation "measure (\<lambda>th. nat \<lceil>th / (2 * pi)\<rceil>)")
  show "wf (measure (\<lambda>th. nat \<lceil>th / (2 * pi)\<rceil>))" by simp
next
  fix th :: real
  assume th: "pi < th"
  define q where "q = th / (2 * pi)"
  have e: "(th - 2 * pi) / (2 * pi) = q - 1"
    unfolding q_def by (simp add: diff_divide_distrib)
  have "0 < th" using th pi_gt_zero by linarith
  then have "0 < q" unfolding q_def by simp
  then have "0 < \<lceil>q\<rceil>" by simp
  then have "nat \<lceil>q - 1\<rceil> < nat \<lceil>q\<rceil>" by simp
  then show "(th - 2 * pi, th) \<in> measure (\<lambda>th. nat \<lceil>th / (2 * pi)\<rceil>)"
    by (simp only: in_measure e q_def [symmetric])
qed

function wrap_up :: "real \<Rightarrow> real" where
  "wrap_up th = (if th < - pi then wrap_up (th + 2 * pi) else th)"
  by pat_completeness auto
termination
proof (relation "measure (\<lambda>th. nat \<lceil>(- th) / (2 * pi)\<rceil>)")
  show "wf (measure (\<lambda>th. nat \<lceil>(- th) / (2 * pi)\<rceil>))" by simp
next
  fix th :: real
  assume th: "th < - pi"
  define q where "q = (- th) / (2 * pi)"
  have e: "(- (th + 2 * pi)) / (2 * pi) = q - 1"
    unfolding q_def by (simp add: diff_divide_distrib)
  have "0 < - th" using th pi_gt_zero by linarith
  then have "0 < q" unfolding q_def by (intro divide_pos_pos) simp_all
  then have "0 < \<lceil>q\<rceil>" by simp
  then have "nat \<lceil>q - 1\<rceil> < nat \<lceil>q\<rceil>" by simp
  then show "(th + 2 * pi, th) \<in> measure (\<lambda>th. nat \<lceil>(- th) / (2 * pi)\<rceil>)"
    by (simp only: in_measure e q_def [symmetric])
qed

definition normalize_angle :: "real \<Rightarrow> real" where
  "normalize_angle th = wrap_up (wrap_down th)"

text \<open>\<^verbatim>\<open>(Math.random() - 0.5) * 2 * NOISE_AMPLITUDE\<close>\<close>

definition noise_of :: "real \<Rightarrow> real" where
  "noise_of rnd = (rnd - 1 / 2) * 2 * NOISE_AMPLITUDE"

text \<open>
  The pendulum embedded in usePhysicsSimulation.js. Its state object also holds the
  PID terms \<^verbatim>\<open>integral\<close> and \<^verbatim>\<open>prevError\<close>, which the step does not name.
  \<open>pend_integrate\<close> is the step up to the normalisation of the angle: the equations
  of motion and the Euler updates.
\<close>

definition pend_integrate :: "real \<Rightarrow> real \<Rightarrow> 'a pend_state_scheme \<Rightarrow> 'a pend_state_scheme" where
  "pend_integrate frc rnd s =
     (let m = PENDULUM_MASS; M = CART_MASS; l = PENDULUM_LENGTH; g = GRAVITY;
          b = FRICTION_CART; c = FRICTION_PENDULUM;
          noise = noise_of rnd;
          sinTheta = sin (theta s);
          cosTheta = cos (theta s);
          denom = l * (4 / 3 - (m * cosTheta * cosTheta) / (M + m));
          thetaDDot = (g * sinTheta
              + cosTheta * ((- frc - m * l * thetaDot s * thetaDot s * sinTheta + b * xDot s) / (M + m))
              - c * thetaDot s / (m * l) + noise) / denom;
          xDDot = (frc + m * l * (thetaDot s * thetaDot s * sinTheta - thetaDDot * cosTheta)
              - b * xDot s) / (M + m);
          s1 = s\<lparr>thetaDot := thetaDot s + thetaDDot * pend_DT\<rparr>;
          s2 = s1\<lparr>theta := theta s1 + thetaDot s1 * pend_DT\<rparr>;
          s3 = s2\<lparr>xDot := xDot s2 + xDDot * pend_DT\<rparr>;
          s4 = s3\<lparr>xPos := xPos s3 + xDot s3 * pend_DT\<rparr>;
          s5 = s4\<lparr>time := time s4 + pend_DT\<rparr>
      in s5\<lparr>theta := normalize_angle (theta s5)\<rparr>)"

text \<open>The step: integration and normalisation, then the two checks in the source's order.\<close>

definition pend_simulateStep :: "real \<Rightarrow> real \<Rightarrow> 'a pend_state_scheme \<Rightarrow> 'a pend_state_scheme" where
  "pend_simulateStep frc rnd s =
     (if fallen s then s
      else
        let s6 = pend_integrate frc rnd s;
            s7 = (if \<bar>theta s6\<bar> > pi / 2 then s6\<lparr>fallen := True\<rparr> else s6)
        in if \<bar>xPos s7\<bar> > TRACK_WIDTH / 2 - 2 / 10
           then s7\<lparr>xPos := sgn (xPos s7) * (TRACK_WIDTH / 2 - 2 / 10), xDot := - xDot s7 * (1 / 2)\<rparr>
           else s7)"

text \<open>
  \<^verbatim>\<open>resetSimulation\<close>: a small random angle, everything else zero; \<open>rest\<close> is the reset
  value of the fields the step does not name.
\<close>

definition pend_resetSimulation :: "real \<Rightarrow> 'a \<Rightarrow> 'a pend_state_scheme" where
  "pend_resetSimulation rnd rest =
     \<lparr>time = 0, theta = (rnd - 1 / 2) * (1 / 10), thetaDot = 0, xPos = 0, xDot = 0,
      fallen = False, \<dots> = rest\<rparr>"

datatype pend_event = PStep real real | PReset real

fun pend_apply :: "'a \<Rightarrow> 'a pend_state_scheme \<Rightarrow> pend_event \<Rightarrow> 'a pend_state_scheme" where
  "pend_apply rest s (PStep frc rnd) = pend_simulateStep frc rnd s"
| "pend_apply rest s (PReset rnd) = pend_resetSimulation rnd rest"

text \<open>
  InvertedPendulumStandalone.jsx: the terminal flag is the loop's \<^verbatim>\<open>localFallen\<close>,
  passed in as \<^verbatim>\<open>currentFallen\<close>; the step returns \<^verbatim>\<open>'crashed'\<close>, \<^verbatim>\<open>'fallen'\<close> or
  \<^verbatim>\<open>null\<close>. The floor tilt turns the angle against gravity and pulls the cart along
  the track.
\<close>

definition sa_pend_integrate :: "real \<Rightarrow> real \<Rightarrow> real \<Rightarrow> sa_pend_state \<Rightarrow> sa_pend_state" where
  "sa_pend_integrate frc tilt rnd s =
     (let m = PENDULUM_MASS; M = CART_MASS; l = PENDULUM_LENGTH; g = GRAVITY;
          b = FRICTION_CART; c = FRICTION_PENDULUM;
          noise = noise_of rnd;
          effectiveTheta = theta s + tilt;
          sinTheta = sin effectiveTheta;
          cosTheta = cos effectiveTheta;
          cartGravityForce = (M + m) * g * sin tilt;
          denom = l * (4 / 3 - (m * cosTheta * cosTheta) / (M + m));
          thetaDDot = (g * sinTheta
              + cosTheta * ((- frc - cartGravityForce - m * l * thetaDot s * thetaDot s * sinTheta
                  + b * xDot s) / (M + m))
              - c * thetaDot s / (m * l) + noise) / denom;
          xDDot = (frc + cartGravityForce
              + m * l * (thetaDot s * thetaDot s * sinTheta - thetaDDot * cosTheta)
              - b * xDot s) / (M + m);
          s1 = s\<lparr>thetaDot := thetaDot s + thetaDDot * pend_DT\<rparr>;
          s2 = s1\<lparr>theta := theta s1 + thetaDot s1 * pend_DT\<rparr>;
          s3 = s2\<lparr>xDot := xDot s2 + xDDot * pend_DT\<rparr>;
          s4 = s3\<lparr>xPos := xPos s3 + xDot s3 * pend_DT\<rparr>;
          s5 = s4\<lparr>time := time s4 + pend_DT, force := frc, floorTilt := tilt\<rparr>
      in s5\<lparr>theta := normalize_angle (theta s5)\<rparr>)"

definition sa_pend_simulateStep ::
  "real \<Rightarrow> bool \<Rightarrow> real \<Rightarrow> real \<Rightarrow> sa_pend_state \<Rightarrow> failure option \<times> sa_pend_state" where
  "sa_pend_simulateStep frc currentFallen tilt rnd s =
     (if currentFallen then (None, s)
      else
        let s6 = sa_pend_integrate frc tilt rnd s
        in if \<bar>xPos s6\<bar> > sa_TRACK_WIDTH / 2 - 2 / 10 then (Some Crashed, s6)
           else if \<bar>theta s6\<bar> > pi / 2 then (Some Fallen, s6)
           else (None, s6))"

section \<open>Fixed-step simulation loop\<close>

subsection \<open>Double-precision arithmetic\<close>

text \<open>
  How many physics steps a frame runs depends on how the accumulator is rounded, so the
  frame loop is modelled with the arithmetic of the source: a number is a real that a
  double can hold, and \<^verbatim>\<open>+\<close>, \<^verbatim>\<open>-\<close> and \<^verbatim>\<open>*\<close> round the exact result to the nearest
  double, ties to the even significand. \<open>dbl_exponent\<close> is the binary exponent of the
  result's binade (not below that of the subnormal numbers), so the spacing of the
  doubles around \<open>x\<close> is \<open>2 powi (dbl_exponent x - 52)\<close>. Results beyond the range of
  the doubles (about \<open>1.8e308\<close>) are outside the model.
\<close>

definition dbl_exponent :: "real \<Rightarrow> int" where
  "dbl_exponent x = max (- 1022) \<lfloor>log 2 \<bar>x\<bar>\<rfloor>"

definition round_even :: "real \<Rightarrow> int" where
  "round_even q =
     (let f = \<lfloor>q\<rfloor>; r = q - of_int f
      in if r < 1 / 2 then f else if 1 / 2 < r then f + 1 else if even f then f else f + 1)"

definition dbl :: "real \<Rightarrow> real" where
  "dbl x =
     (if x = 0 then 0
      else let u = 2 powi (dbl_exponent x - 52) in of_int (round_even (x / u)) * u)"

definition dbl_add :: "real \<Rightarrow> real \<Rightarrow> real" where
  "dbl_add a b = dbl (a + b)"

definition dbl_sub :: "real \<Rightarrow> real \<Rightarrow> real" where
  "dbl_sub a b = dbl (a - b)"

definition dbl_mul :: "real \<Rightarrow> real \<Rightarrow> real" where
  "dbl_mul a b = dbl (a * b)"

subsection \<open>The loop\<close>

text \<open>
  The \<^verbatim>\<open>while (accumulator >= dt * 1000)\<close> loop of every animation frame, with
  \<^verbatim>\<open>accumulator -= dt * 1000\<close> at the end of the body; \<open>stepMs\<close> is the value of
  \<^verbatim>\<open>dt * 1000\<close>. The loop does not return when the step is not positive, or so small
  against the accumulator that the subtraction rounds back to the accumulator, so it
  is a partial function: \<open>None\<close> is a loop that does not return, or a body whose
  result has no value in the model.
\<close>

partial_function (option) drain :: "real \<Rightarrow> ('s \<Rightarrow> 's option) \<Rightarrow> real \<Rightarrow> 's \<Rightarrow> (real \<times> 's) option" where
  "drain stepMs body acc s =
     (if acc \<ge> stepMs then Option.bind (body s) (\<lambda>s'. drain stepMs body (dbl_sub acc stepMs) s')
      else Some (acc, s))"

record 's loop_vars =
  lastTime :: real
  accumulator :: real
  physics :: 's

text \<open>
  One call of \<^verbatim>\<open>loop(currentTime)\<close>, without rendering and plot sampling:
  \<^verbatim>\<open>deltaTime = Math.min(currentTime - lastTime, 50)\<close>, \<^verbatim>\<open>lastTime = currentTime\<close>,
  \<^verbatim>\<open>accumulator += deltaTime * timeScale\<close>, then the while loop. The loops that have no
  time scale are the case \<open>timeScale = 1\<close>, where the product is \<open>deltaTime\<close> itself.
\<close>

definition loop_frame ::
  "real \<Rightarrow> real \<Rightarrow> ('s \<Rightarrow> 's option) \<Rightarrow> 's loop_vars \<Rightarrow> real \<Rightarrow> 's loop_vars option" where
  "loop_frame dt timeScale body v currentTime =
     (let deltaTime = min (dbl_sub currentTime (lastTime v)) 50;
          acc = dbl_add (accumulator v) (dbl_mul deltaTime timeScale)
      in map_option (\<lambda>(a, s). \<lparr>lastTime = currentTime, accumulator = a, physics = s\<rparr>)
           (drain (dbl_mul dt 1000) body acc (physics v)))"

text \<open>A run of frames, given by their timestamps.\<close>

fun loop_frames ::
  "real \<Rightarrow> real \<Rightarrow> ('s \<Rightarrow> 's option) \<Rightarrow> 's loop_vars \<Rightarrow> real list \<Rightarrow> 's loop_vars option" where
  "loop_frames dt timeScale body v [] = Some v"
| "loop_frames dt timeScale body v (t # ts) =
     Option.bind (loop_frame dt timeScale body v t) (\<lambda>v'. loop_frames dt timeScale body v' ts)"

text \<open>\<open>k\<close> physics steps in a row.\<close>

fun steps :: "('s \<Rightarrow> 's option) \<Rightarrow> nat \<Rightarrow> 's \<Rightarrow> 's option" where
  "steps body 0 s = Some s"
| "steps body (Suc k) s = Option.bind (body s) (steps body k)"

text \<open>
  usePhysicsSimulation.js: the body calls \<^verbatim>\<open>onPhysicsStep(state, dt)\<close> when the caller
  gave one, which mutates the state, and then advances \<^verbatim>\<open>time\<close>.
\<close>

definition ups_body ::
  "('a sim_state_scheme \<Rightarrow> real \<Rightarrow> 'a sim_state_scheme) option \<Rightarrow> real \<Rightarrow>
   'a sim_state_scheme \<Rightarrow> 'a sim_state_scheme option" where
  "ups_body onPhysicsStep dt s =
     (let s1 = (case onPhysicsStep of None \<Rightarrow> s | Some f \<Rightarrow> f s dt)
      in Some (s1\<lparr>time := dbl_add (time s1) dt\<rparr>))"

text \<open>
  A caller of the hook whose \<^verbatim>\<open>onPhysicsStep\<close> counts its calls in the state
  (\<^verbatim>\<open>state.stepCount += 1\<close>).
\<close>

record counted_state = sim_state +
  stepCount :: nat

definition count_step :: "counted_state \<Rightarrow> real \<Rightarrow> counted_state" where
  "count_step s dt = s\<lparr>stepCount := stepCount s + 1\<rparr>"

definition ups_loop ::
  "real \<Rightarrow> real \<Rightarrow> ('a sim_state_scheme \<Rightarrow> real \<Rightarrow> 'a sim_state_scheme) option \<Rightarrow>
   'a sim_state_scheme loop_vars \<Rightarrow> real \<Rightarrow> 'a sim_state_scheme loop_vars option" where
  "ups_loop dt timeScale onPhysicsStep = loop_frame dt timeScale (ups_body onPhysicsStep dt)"

definition ups_loops ::
  "real \<Rightarrow> real \<Rightarrow> ('a sim_state_scheme \<Rightarrow> real \<Rightarrow> 'a sim_state_scheme) option \<Rightarrow>
   'a sim_state_scheme loop_vars \<Rightarrow> real list \<Rightarrow> 'a sim_state_scheme loop_vars option" where
  "ups_loops dt timeScale onPhysicsStep = loop_frames dt timeScale (ups_body onPhysicsStep dt)"

text \<open>
  HotTub.jsx: the body asks the shared controller, or the manual input, for the heater
  power and steps the tank, both as modelled above. A power that is not finite has no
  value in the tank model. The loop compares the accumulator with \<^verbatim>\<open>DT * 1000\<close>, where
  \<^verbatim>\<open>DT\<close> is the double of the literal \<^verbatim>\<open>0.1\<close>.
\<close>

datatype control_mode = PidMode | UserMode

record tub_sim =
  controller :: pid_state
  tub :: tub_state

definition tub_computePIDPower :: "gains \<Rightarrow> tub_sim \<Rightarrow> jsnum \<times> pid_state" where
  "tub_computePIDPower g v =
     pid_compute \<lparr>integralMin = None, integralMax = None\<rparr> (controller v)
       (setpoint (tub v) - temperature (tub v)) g tub_DT"

definition tub_body :: "control_mode \<Rightarrow> real \<Rightarrow> gains \<Rightarrow> tub_sim \<Rightarrow> tub_sim option" where
  "tub_body controlMode userInput g v =
     (if controlMode = PidMode
      then (case tub_computePIDPower g v of
              (None, c) \<Rightarrow> None
            | (Some pw, c) \<Rightarrow> Some \<lparr>controller = c, tub = tub_simulateStep pw (tub v)\<rparr>)
      else Some (v\<lparr>tub := tub_simulateStep (userInput * MAX_HEATER_POWER) (tub v)\<rparr>))"

definition tub_loop ::
  "control_mode \<Rightarrow> real \<Rightarrow> gains \<Rightarrow> tub_sim loop_vars \<Rightarrow> real \<Rightarrow> tub_sim loop_vars option" where
  "tub_loop controlMode userInput g =
     loop_frame (dbl tub_DT) tub_TIME_SCALE (tub_body controlMode userInput g)"

definition tub_loops ::
  "control_mode \<Rightarrow> real \<Rightarrow> gains \<Rightarrow> tub_sim loop_vars \<Rightarrow> real list \<Rightarrow> tub_sim loop_vars option" where
  "tub_loops controlMode userInput g =
     loop_frames (dbl tub_DT) tub_TIME_SCALE (tub_body controlMode userInput g)"

section \<open>Anti-windup\<close>

lemma clamp_in_bounds: "bounds_ordered lo hi \<Longrightarrow> in_bounds lo hi (clamp v lo hi)"
  by (auto simp: bounds_ordered_def in_bounds_def clamp_def math_max_def math_min_def
      split: option.splits)

lemma pid_compute_integral:
  "integral (snd (pid_compute cfg st err g dt)) =
     clamp (integral st + err * dt) (integralMin cfg) (integralMax cfg)"
  by (simp add: pid_compute_def computePID_def clamp_def Let_def)

lemma compute_integral:
  "integral (snd (compute cfg st err g dt)) =
     clamp (integral st + err * dt) (integralMin cfg) (integralMax cfg)"
  by (simp add: compute_def clamp_def Let_def)

lemma pid_computes_in_bounds:
  "bounds_ordered (integralMin cfg) (integralMax cfg) \<Longrightarrow> cs \<noteq> [] \<Longrightarrow>
   in_bounds (integralMin cfg) (integralMax cfg) (integral (pid_computes cfg st cs))"
proof (induction cs arbitrary: st)
  case Nil
  then show ?case by simp
next
  case (Cons c cs)
  obtain err g dt where c: "c = (err, g, dt)" by (cases c) auto
  show ?case
  proof (cases cs)
    case Nil
    with c Cons.prems show ?thesis by (simp add: pid_compute_integral clamp_in_bounds)
  next
    case (Cons c' cs')
    with c Cons.IH [of "snd (pid_compute cfg st err g dt)"] Cons.prems show ?thesis by simp
  qed
qed

lemma computes_in_bounds:
  "bounds_ordered (integralMin cfg) (integralMax cfg) \<Longrightarrow> cs \<noteq> [] \<Longrightarrow>
   in_bounds (integralMin cfg) (integralMax cfg) (integral (computes cfg st cs))"
proof (induction cs arbitrary: st)
  case Nil
  then show ?case by simp
next
  case (Cons c cs)
  obtain err g dt where c: "c = (err, g, dt)" by (cases c) auto
  show ?case
  proof (cases cs)
    case Nil
    with c Cons.prems show ?thesis by (simp add: compute_integral clamp_in_bounds)
  next
    case (Cons c' cs')
    with c Cons.IH [of "snd (compute cfg st err g dt)"] Cons.prems show ?thesis by simp
  qed
qed

text \<open>
  C1 (anti-windup bound). In both controllers the integral state after a \<^verbatim>\<open>compute\<close>
  call is the previous integral plus \<open>error * dt\<close>, clamped by
  \<^verbatim>\<open>Math.max(integralMin, Math.min(integralMax, _))\<close>, whatever the error, the gains and
  the timestep are. When the configured bounds form an interval (the lower bound is not
  above the upper one; the infinite defaults always do), the integral therefore lies
  within the bounds after every call of every non-empty sequence of calls, from any
  starting state.
\<close>

theorem integral_anti_windup:
  "integral (snd (pid_compute cfg st err g dt)) =
     clamp (integral st + err * dt) (integralMin cfg) (integralMax cfg)
   \<and> integral (snd (compute fcfg fs err g dt)) =
     clamp (integral fs + err * dt) (integralMin fcfg) (integralMax fcfg)
   \<and> (bounds_ordered (integralMin cfg) (integralMax cfg) \<longrightarrow>
        in_bounds (integralMin cfg) (integralMax cfg) (integral (snd (pid_compute cfg st err g dt)))
        \<and> (cs \<noteq> [] \<longrightarrow>
             in_bounds (integralMin cfg) (integralMax cfg) (integral (pid_computes cfg st cs))))
   \<and> (bounds_ordered (integralMin fcfg) (integralMax fcfg) \<longrightarrow>
        in_bounds (integralMin fcfg) (integralMax fcfg) (integral (snd (compute fcfg fs err g dt)))
        \<and> (cs \<noteq> [] \<longrightarrow>
             in_bounds (integralMin fcfg) (integralMax fcfg) (integral (computes fcfg fs cs))))"
  by (simp add: pid_compute_integral compute_integral clamp_in_bounds
      pid_computes_in_bounds computes_in_bounds)

theorem integral_anti_windup_witness:
  "bounds_ordered (Some (-50)) (Some 50)
   \<and> [(1000, \<lparr>kp = 25, ki = 8, kd = 15\<rparr>, 1 / 1000)] \<noteq> []
   \<and> integral (snd (pid_compute \<lparr>integralMin = Some (-50), integralMax = Some 50\<rparr>
         \<lparr>integral = 49.5, prevError = 0\<rparr> 1000 \<lparr>kp = 25, ki = 8, kd = 15\<rparr> (1 / 1000))) = 50
   \<and> in_bounds (Some (-50)) (Some 50)
        (integral (pid_computes \<lparr>integralMin = Some (-50), integralMax = Some 50\<rparr>
           \<lparr>integral = 49.5, prevError = 0\<rparr> [(1000, \<lparr>kp = 25, ki = 8, kd = 15\<rparr>, 1 / 1000)]))
   \<and> bounds_ordered None None
   \<and> in_bounds (Some (-50)) (Some 50)
        (integral (computes \<lparr>integralMin = Some (-50), integralMax = Some 50, derivativeWindowSize = 5\<rparr>
           createPIDController [(1000, \<lparr>kp = 25, ki = 8, kd = 15\<rparr>, 1 / 1000)]))"
  using integral_anti_windup [of "\<lparr>integralMin = Some (-50), integralMax = Some 50\<rparr>"
      "\<lparr>integral = 49.5, prevError = 0\<rparr>" 1000 "\<lparr>kp = 25, ki = 8, kd = 15\<rparr>" "1 / 1000"
      "\<lparr>integralMin = Some (-50), integralMax = Some 50, derivativeWindowSize = 5\<rparr>"
      createPIDController "[(1000, \<lparr>kp = 25, ki = 8, kd = 15\<rparr>, 1 / 1000)]"]
  by (simp add: bounds_ordered_def in_bounds_def clamp_def math_max_def math_min_def
      createPIDController_def)

section \<open>Derivative term\<close>

lemma history_sum_Some: "foldl js_add (Some a) (map Some xs) = Some (a + sum_list xs)"
  by (induction xs arbitrary: a) (simp_all add: js_add_def add.assoc)

lemma history_mean_finite:
  "xs \<noteq> [] \<Longrightarrow> history_mean (map Some xs) = Some (sum_list xs / real (length xs))"
  by (simp add: history_mean_def history_sum_def history_sum_Some js_div_def)

lemma history_mean_zeros: "0 < n \<Longrightarrow> history_mean (replicate n (Some 0)) = Some 0"
  using history_mean_finite [of "replicate n 0"] by (simp add: map_replicate_const sum_list_replicate)

lemma push_derivative_cases:
  "push_derivative w h d = (if int (length h) < w then h @ [d] else tl (h @ [d]))"
  by (auto simp: push_derivative_def Let_def)

lemma push_derivative_drop:
  "length h \<le> n \<Longrightarrow> push_derivative (int n) h d = drop (length h + 1 - n) (h @ [d])"
proof (cases "length h = n")
  case True
  have "drop (Suc 0) (h @ [d]) = tl (h @ [d])" by (simp only: drop_Suc drop_0)
  with True show ?thesis by (simp add: push_derivative_def Let_def)
next
  case False
  moreover assume "length h \<le> n"
  ultimately show ?thesis by (simp add: push_derivative_def Let_def)
qed

lemma pushes_drop:
  "length h \<le> n \<Longrightarrow> pushes (int n) h ds = drop (length h + length ds - n) (h @ ds)"
proof (induction ds arbitrary: h)
  case Nil
  then show ?case by simp
next
  case (Cons d ds)
  let ?k = "length h + 1 - n"
  let ?h = "push_derivative (int n) h d"
  have h: "?h = drop ?k (h @ [d])" using Cons.prems by (rule push_derivative_drop)
  have l: "length ?h = length h + 1 - ?k" unfolding h by simp
  have ln: "length ?h \<le> n" unfolding l using Cons.prems by simp
  have app: "?h @ ds = drop ?k (h @ d # ds)"
  proof -
    have "drop ?k ((h @ [d]) @ ds) = drop ?k (h @ [d]) @ ds"
      by (subst drop_append) simp
    then show ?thesis unfolding h by simp
  qed
  have ar: "length ?h + length ds - n + ?k = length h + length (d # ds) - n"
    unfolding l using Cons.prems by (cases "length h = n") simp_all
  have "pushes (int n) h (d # ds) = pushes (int n) ?h ds" by simp
  also have "\<dots> = drop (length ?h + length ds - n) (?h @ ds)"
    using ln by (rule Cons.IH)
  also have "\<dots> = drop (length ?h + length ds - n + ?k) (h @ d # ds)"
    unfolding app by (rule drop_drop)
  also note ar
  finally show ?case .
qed


lemma length_push_derivative:
  "length h \<le> n \<Longrightarrow> length (push_derivative (int n) h d) = min (length h + 1) n"
  by (simp add: push_derivative_drop)

lemma compute_history:
  "derivativeHistory (snd (compute cfg st err g dt)) =
     push_derivative (derivativeWindowSize cfg) (derivativeHistory st) (rawDerivative st err dt)"
  by (simp add: compute_def Let_def)

lemma compute_errorD:
  "errorD (fst (compute cfg st err g dt)) = history_mean (derivativeHistory (snd (compute cfg st err g dt)))"
  by (simp add: compute_def Let_def)

lemma compute_flags:
  "initialized (snd (compute cfg st err g dt))" "prevError (snd (compute cfg st err g dt)) = err"
  by (simp_all add: compute_def Let_def)

lemma computes_snoc:
  "computes cfg st (cs @ [(err, g, dt)]) = snd (compute cfg (computes cfg st cs) err g dt)"
  by (induction cs arbitrary: st) auto

lemma pushes_replicate_full:
  assumes "length h \<le> n" "n \<le> m"
  shows "pushes (int n) h (replicate m (Some 0)) = replicate n (Some 0)"
proof -
  have "pushes (int n) h (replicate m (Some 0)) = drop (length h + m - n) (h @ replicate m (Some 0))"
    using assms(1) by (simp add: pushes_drop)
  also have "\<dots> = drop (m - n) (replicate m (Some 0))"
    using assms by simp
  also have "\<dots> = replicate n (Some 0)"
    using assms by simp
  finally show ?thesis .
qed

lemma constant_run_history:
  assumes "\<forall>c\<in>set cs. fst c = e \<and> 0 < snd (snd c)"
    and "initialized st \<longrightarrow> prevError st = e"
  shows "derivativeHistory (computes cfg st cs) =
           pushes (derivativeWindowSize cfg) (derivativeHistory st) (replicate (length cs) (Some 0))"
  using assms
proof (induction cs arbitrary: st)
  case Nil
  then show ?case by simp
next
  case (Cons c cs)
  obtain err g dt where c: "c = (err, g, dt)" by (cases c) auto
  with Cons.prems have e: "err = e" and dt: "0 < dt" by auto
  have raw: "rawDerivative st e dt = Some 0"
    using Cons.prems(2) dt by (simp add: rawDerivative_def js_div_def)
  let ?st = "snd (compute cfg st e g dt)"
  have "derivativeHistory (computes cfg ?st cs) =
          pushes (derivativeWindowSize cfg) (derivativeHistory ?st) (replicate (length cs) (Some 0))"
    using Cons.prems(1) by (intro Cons.IH) (simp_all add: compute_flags)
  then show ?case by (simp add: c e compute_history raw)
qed

lemma length_computes_history:
  "length (derivativeHistory st) \<le> n \<Longrightarrow> derivativeWindowSize cfg = int n \<Longrightarrow>
   length (derivativeHistory (computes cfg st cs)) = min (length (derivativeHistory st) + length cs) n"
proof (induction cs arbitrary: st)
  case Nil
  then show ?case by simp
next
  case (Cons c cs)
  obtain err g dt where c: "c = (err, g, dt)" by (cases c) auto
  let ?st = "snd (compute cfg st err g dt)"
  have l: "length (derivativeHistory ?st) = min (length (derivativeHistory st) + 1) n"
    using Cons.prems by (simp add: compute_history length_push_derivative)
  then have "length (derivativeHistory (computes cfg ?st cs)) = min (length (derivativeHistory ?st) + length cs) n"
    using Cons.prems(2) by (intro Cons.IH) simp_all
  with l show ?case by (simp add: c)
qed

lemma constant_error_converged:
  assumes w: "derivativeWindowSize cfg = int n" "0 < n"
    and h: "length (derivativeHistory st) \<le> n"
    and cs: "\<forall>c\<in>set cs. fst c = e \<and> 0 < snd (snd c)" "n < length cs"
  shows "derivativeHistory (computes cfg st cs) = replicate n (Some 0)"
proof -
  from cs(2) obtain c cs' where cs': "cs = c # cs'" by (cases cs) auto
  obtain err g dt where c: "c = (err, g, dt)" by (cases c) auto
  let ?st = "snd (compute cfg st err g dt)"
  from cs(1) cs' c have e: "err = e" by simp
  have l: "length (derivativeHistory ?st) \<le> n"
    using h w(1) by (simp add: compute_history length_push_derivative)
  have "derivativeHistory (computes cfg ?st cs') =
          pushes (int n) (derivativeHistory ?st) (replicate (length cs') (Some 0))"
    using cs(1) cs' w(1) constant_run_history [of cs' e ?st cfg] by (simp add: compute_flags e)
  also have "\<dots> = replicate n (Some 0)"
    using l cs(2) cs' by (intro pushes_replicate_full) simp_all
  finally show ?thesis by (simp add: cs' c)
qed

lemma constant_error_fresh:
  assumes w: "derivativeWindowSize cfg = int n"
    and st: "derivativeHistory st = []" "\<not> initialized st"
    and cs: "\<forall>c\<in>set cs. fst c = e \<and> 0 < snd (snd c)"
  shows "derivativeHistory (computes cfg st cs) = replicate (min (length cs) n) (Some 0)"
proof -
  have "derivativeHistory (computes cfg st cs) =
          pushes (int n) (derivativeHistory st) (replicate (length cs) (Some 0))"
    using cs st(2) w constant_run_history [of cs e st cfg] by simp
  also have "\<dots> = drop (length cs - n) (replicate (length cs) (Some 0))"
    by (simp add: st(1) pushes_drop)
  also have "\<dots> = replicate (min (length cs) n) (Some 0)"
    by (simp add: min_def)
  finally show ?thesis .
qed

lemma history_mean_single: "history_mean [Some 0] = Some 0"
  using history_mean_finite [of "[0]"] by simp

lemma fresh_errorD:
  assumes "1 \<le> derivativeWindowSize cfg" "derivativeHistory st = []" "\<not> initialized st"
  shows "errorD (fst (compute cfg st err g dt)) = Some 0"
  using assms
  by (simp add: compute_errorD compute_history rawDerivative_def push_derivative_def
      history_mean_single)

text \<open>
  C2 (no derivative kick), as the code has it. The controller of the standalone
  simulators uses a raw derivative of zero on the first \<^verbatim>\<open>compute\<close> call after
  construction or \<^verbatim>\<open>reset()\<close>, whatever the error and the timestep are, and with a window
  size of at least one it reports \<open>errorD = 0\<close> there. Every call leaves the controller
  initialized, so a call that follows a call with error \<open>err0\<close> uses
  \<open>(err - err0) / dt\<close> when \<open>dt\<close> is positive. The shared controller of
  utils/pidController.js has no such guard: every call, the first one included, uses
  \<open>(err - prevError) / dt\<close>, where \<open>prevError\<close> is zero after construction or reset.
\<close>

theorem first_call_no_derivative_kick:
  "rawDerivative createPIDController err dt = Some 0
   \<and> rawDerivative (reset st) err dt = Some 0
   \<and> (1 \<le> derivativeWindowSize cfg \<longrightarrow>
        errorD (fst (compute cfg createPIDController err g dt)) = Some 0
        \<and> errorD (fst (compute cfg (reset st) err g dt)) = Some 0)
   \<and> initialized (snd (compute cfg st err g dt))
   \<and> (0 < dt \<longrightarrow>
        rawDerivative (snd (compute cfg st err0 g0 dt0)) err dt = Some ((err - err0) / dt))
   \<and> fst (pid_compute ucfg ust err g dt) =
        pid_output g err (clamp (integral ust + err * dt) (integralMin ucfg) (integralMax ucfg))
          (js_div (err - prevError ust) dt)
   \<and> prevError pid_create = 0 \<and> prevError (pid_reset ust) = 0"
proof -
  have "rawDerivative createPIDController err dt = Some 0"
    by (simp add: rawDerivative_def createPIDController_def)
  moreover have "rawDerivative (reset st) err dt = Some 0"
    by (simp add: rawDerivative_def reset_def)
  moreover have "errorD (fst (compute cfg createPIDController err g dt)) = Some 0"
    if "1 \<le> derivativeWindowSize cfg"
    using that by (intro fresh_errorD) (simp_all add: createPIDController_def)
  moreover have "errorD (fst (compute cfg (reset st) err g dt)) = Some 0"
    if "1 \<le> derivativeWindowSize cfg"
    using that by (intro fresh_errorD) (simp_all add: reset_def)
  moreover have "rawDerivative (snd (compute cfg st err0 g0 dt0)) err dt = Some ((err - err0) / dt)"
    if "0 < dt"
    using that by (simp add: rawDerivative_def compute_flags js_div_def)
  moreover have "fst (pid_compute ucfg ust err g dt) =
        pid_output g err (clamp (integral ust + err * dt) (integralMin ucfg) (integralMax ucfg))
          (js_div (err - prevError ust) dt)"
    by (simp add: pid_compute_def computePID_def clamp_def Let_def)
  moreover have "prevError pid_create = 0" "prevError (pid_reset ust) = 0"
    by (simp_all add: pid_create_def pid_reset_def)
  ultimately show ?thesis by (simp add: compute_flags)
qed

theorem first_call_no_derivative_kick_witness:
  "1 \<le> derivativeWindowSize default_config \<and> (0::real) < 1 / 1000
   \<and> errorD (fst (compute default_config createPIDController 1000 \<lparr>kp = 250, ki = 25, kd = 75\<rparr>
        (1 / 1000))) = Some 0
   \<and> rawDerivative
        (snd (compute default_config createPIDController 1 \<lparr>kp = 250, ki = 25, kd = 75\<rparr> (1 / 1000)))
        3 (1 / 1000) = Some 2000"
  using first_call_no_derivative_kick [of 3 "1 / 1000" createPIDController default_config
      "\<lparr>kp = 250, ki = 25, kd = 75\<rparr>" 1 "\<lparr>kp = 250, ki = 25, kd = 75\<rparr>" "1 / 1000"]
    first_call_no_derivative_kick [of 1000 "1 / 1000" createPIDController default_config
      "\<lparr>kp = 250, ki = 25, kd = 75\<rparr>"]
  by (simp add: default_config_def)

text \<open>
  The claim as stated fails for the shared controller: on its first call after
  construction, and after a reset, with error 1, timestep 1 and only the derivative gain
  set, the output is 1, where a raw derivative of zero would give 0.
\<close>

theorem shared_controller_first_call_counterexample:
  "fst (pid_compute \<lparr>integralMin = None, integralMax = None\<rparr> pid_create 1
         \<lparr>kp = 0, ki = 0, kd = 1\<rparr> 1) = Some 1
   \<and> fst (pid_compute \<lparr>integralMin = None, integralMax = None\<rparr>
         (pid_reset \<lparr>integral = 7, prevError = 7\<rparr>) 1 \<lparr>kp = 0, ki = 0, kd = 1\<rparr> 1) = Some 1
   \<and> pid_output \<lparr>kp = 0, ki = 0, kd = 1\<rparr> 1 1 (Some 0) = Some 0"
  by (simp add: pid_compute_def computePID_def pid_output_def pid_create_def pid_reset_def
      js_div_def js_add_def js_mul_def math_max_def math_min_def Let_def)

text \<open>
  C3 (derivative window), as the code has it, for a window size \<open>n\<close> of at least one.
  Each \<^verbatim>\<open>compute\<close> call appends its raw derivative to the window and drops the oldest
  sample only when the window already held \<open>n\<close> samples; \<open>errorD\<close> is the mean of the
  samples then held (their sum over their number when all are finite); from a new
  controller the window holds \<open>min k n\<close> samples after \<open>k\<close> calls. With constant error
  and positive timesteps, \<open>errorD\<close> is zero on every call of a run that starts at a new
  or reset controller, and from any other state with at most \<open>n\<close> samples in the window
  it is zero from call \<open>n + 1\<close> of the run on: the first call of the run may add a
  non-zero sample, which leaves the window only after \<open>n\<close> more calls.
\<close>

theorem derivative_window_mean:
  assumes "0 < n" "derivativeWindowSize cfg = int n"
  shows "derivativeHistory (snd (compute cfg st err g dt)) =
           (if length (derivativeHistory st) < n then derivativeHistory st @ [rawDerivative st err dt]
            else tl (derivativeHistory st @ [rawDerivative st err dt]))
    \<and> errorD (fst (compute cfg st err g dt)) =
           history_mean (derivativeHistory (snd (compute cfg st err g dt)))
    \<and> (xs \<noteq> [] \<longrightarrow> history_mean (map Some xs) = Some (sum_list xs / real (length xs)))
    \<and> length (derivativeHistory (computes cfg createPIDController cs)) = min (length cs) n
    \<and> ((\<forall>c\<in>set cs. fst c = e \<and> 0 < snd (snd c)) \<and> 0 < dt \<longrightarrow>
          errorD (fst (compute cfg (computes cfg createPIDController cs) e g dt)) = Some 0
          \<and> errorD (fst (compute cfg (computes cfg (reset st) cs) e g dt)) = Some 0)
    \<and> (length (derivativeHistory st) \<le> n \<and> (\<forall>c\<in>set cs. fst c = e \<and> 0 < snd (snd c))
          \<and> n \<le> length cs \<and> 0 < dt \<longrightarrow>
          errorD (fst (compute cfg (computes cfg st cs) e g dt)) = Some 0)"
proof -
  have a: "derivativeHistory (snd (compute cfg st err g dt)) =
           (if length (derivativeHistory st) < n then derivativeHistory st @ [rawDerivative st err dt]
            else tl (derivativeHistory st @ [rawDerivative st err dt]))"
    using assms(2) by (simp add: compute_history push_derivative_cases)
  have d: "length (derivativeHistory (computes cfg createPIDController cs)) = min (length cs) n"
    using length_computes_history [of createPIDController n cfg cs] assms(2)
    by (simp add: createPIDController_def)
  have run: "errorD (fst (compute cfg (computes cfg s0 cs) e g dt)) = Some 0"
    if "derivativeHistory s0 = []" "\<not> initialized s0"
      "\<forall>c\<in>set cs. fst c = e \<and> 0 < snd (snd c)" "0 < dt" for s0
  proof -
    have "\<forall>c\<in>set (cs @ [(e, g, dt)]). fst c = e \<and> 0 < snd (snd c)"
      using that by auto
    then have "derivativeHistory (computes cfg s0 (cs @ [(e, g, dt)])) =
        replicate (min (length (cs @ [(e, g, dt)])) n) (Some 0)"
      using assms(2) that(1,2) by (intro constant_error_fresh)
    moreover have "0 < min (length (cs @ [(e, g, dt)])) n" using assms(1) by simp
    ultimately show ?thesis
      by (simp only: compute_errorD computes_snoc [symmetric] history_mean_zeros)
  qed
  have f: "errorD (fst (compute cfg (computes cfg st cs) e g dt)) = Some 0"
    if "length (derivativeHistory st) \<le> n" "\<forall>c\<in>set cs. fst c = e \<and> 0 < snd (snd c)"
      "n \<le> length cs" "0 < dt"
  proof -
    have "\<forall>c\<in>set (cs @ [(e, g, dt)]). fst c = e \<and> 0 < snd (snd c)"
      using that by auto
    moreover have "n < length (cs @ [(e, g, dt)])" using that(3) by simp
    ultimately have "derivativeHistory (computes cfg st (cs @ [(e, g, dt)])) = replicate n (Some 0)"
      using assms that(1) by (intro constant_error_converged)
    then show ?thesis
      using assms(1) by (simp only: compute_errorD computes_snoc [symmetric] history_mean_zeros)
  qed
  have r1: "derivativeHistory createPIDController = []" "\<not> initialized createPIDController"
    by (simp_all add: createPIDController_def)
  have r2: "derivativeHistory (reset st) = []" "\<not> initialized (reset st)"
    by (simp_all add: reset_def)
  have b: "errorD (fst (compute cfg st err g dt)) =
           history_mean (derivativeHistory (snd (compute cfg st err g dt)))"
    by (rule compute_errorD)
  have c: "xs \<noteq> [] \<longrightarrow> history_mean (map Some xs) = Some (sum_list xs / real (length xs))"
    by (simp add: history_mean_finite)
  have e: "(\<forall>c\<in>set cs. fst c = e \<and> 0 < snd (snd c)) \<and> 0 < dt \<longrightarrow>
          errorD (fst (compute cfg (computes cfg createPIDController cs) e g dt)) = Some 0
          \<and> errorD (fst (compute cfg (computes cfg (reset st) cs) e g dt)) = Some 0"
    using run [OF r1] run [OF r2] by blast
  have f': "length (derivativeHistory st) \<le> n \<and> (\<forall>c\<in>set cs. fst c = e \<and> 0 < snd (snd c))
          \<and> n \<le> length cs \<and> 0 < dt \<longrightarrow>
          errorD (fst (compute cfg (computes cfg st cs) e g dt)) = Some 0"
    using f by blast
  show ?thesis by (intro conjI a b c d e f')
qed

theorem derivative_window_mean_witness:
  "(0::nat) < 5 \<and> derivativeWindowSize default_config = int 5
   \<and> length (derivativeHistory (snd (compute default_config createPIDController 1
        \<lparr>kp = 50, ki = 5, kd = 30\<rparr> 1))) \<le> 5
   \<and> set (replicate 5 (0 :: real, \<lparr>kp = 50, ki = 5, kd = 30\<rparr>, 1 :: real)) = {(0, \<lparr>kp = 50, ki = 5, kd = 30\<rparr>, 1)}
   \<and> 5 \<le> length (replicate 5 (0 :: real, \<lparr>kp = 50, ki = 5, kd = 30\<rparr>, 1 :: real))
   \<and> (0::real) < 1 \<and> [1, 3 :: real] \<noteq> []
   \<and> errorD (fst (compute default_config
        (computes default_config
           (snd (compute default_config createPIDController 1 \<lparr>kp = 50, ki = 5, kd = 30\<rparr> 1))
           (replicate 5 (0, \<lparr>kp = 50, ki = 5, kd = 30\<rparr>, 1)))
        0 \<lparr>kp = 50, ki = 5, kd = 30\<rparr> 1)) = Some 0
   \<and> history_mean (map Some [1, 3]) = Some 2"
proof -
  let ?g = "\<lparr>kp = 50, ki = 5, kd = 30\<rparr>"
  let ?st = "snd (compute default_config createPIDController 1 ?g 1)"
  let ?cs = "replicate 5 (0 :: real, ?g, 1 :: real)"
  have h1: "(0::nat) < 5" by simp
  have h2: "derivativeWindowSize default_config = int 5" by (simp add: default_config_def)
  have h3: "length (derivativeHistory ?st) \<le> 5"
    by (simp add: compute_def push_derivative_def Let_def createPIDController_def default_config_def)
  have h4: "\<forall>c\<in>set ?cs. fst c = 0 \<and> 0 < snd (snd c)" by simp
  have h5: "5 \<le> length ?cs" by simp
  have h6: "(0::real) < 1" by simp
  have h7: "[1, 3 :: real] \<noteq> []" by simp
  note t = derivative_window_mean [OF h1 h2, of ?st 0 ?g 1 "[1, 3]" ?cs 0]
  from t h3 h4 h5 h6 have c1: "errorD (fst (compute default_config (computes default_config ?st ?cs) 0 ?g 1)) = Some 0"
    by blast
  from t h7 have "history_mean (map Some [1, 3]) = Some (sum_list [1, 3] / real (length [1, 3 :: real]))"
    by blast
  then have c2: "history_mean (map Some [1, 3]) = Some 2" by simp
  have h4': "set ?cs = {(0, ?g, 1)}" by simp
  show ?thesis by (intro conjI h1 h2 h3 h4' h5 h6 h7 c1 c2)
qed

text \<open>
  The claim as stated fails at the window size: after a call with error 1, five
  consecutive calls with error 0 (timestep 1, window size 5) end with the window
  \<open>[-1, 0, 0, 0, 0]\<close> and \<open>errorD = -1/5\<close>.
\<close>

theorem derivative_window_size_calls_counterexample:
  "errorD (fst (compute default_config
       (computes default_config
          (snd (compute default_config createPIDController 1 \<lparr>kp = 50, ki = 5, kd = 30\<rparr> 1))
          [(0, \<lparr>kp = 50, ki = 5, kd = 30\<rparr>, 1), (0, \<lparr>kp = 50, ki = 5, kd = 30\<rparr>, 1),
           (0, \<lparr>kp = 50, ki = 5, kd = 30\<rparr>, 1), (0, \<lparr>kp = 50, ki = 5, kd = 30\<rparr>, 1)])
       0 \<lparr>kp = 50, ki = 5, kd = 30\<rparr> 1)) = Some (- 1 / 5)"
  by (simp add: compute_def push_derivative_def rawDerivative_def history_mean_def history_sum_def
      js_div_def js_add_def js_mul_def Let_def createPIDController_def default_config_def)

section \<open>Terminal states\<close>

lemma drone_apply_crashed: "crashed d \<Longrightarrow> Reset \<noteq> ev \<Longrightarrow> drone_apply d ev = d"
  by (cases ev) (simp_all add: drone_simulateStep_def drone_changeSetpoint_def drone_addWeight_def)

lemma drone_events_crashed: "crashed d \<Longrightarrow> Reset \<notin> set evs \<Longrightarrow> foldl drone_apply d evs = d"
  by (induction evs) (simp_all add: drone_apply_crashed)

lemma pend_steps_fallen:
  "fallen ps \<Longrightarrow> \<forall>rnd. PReset rnd \<notin> set pevs \<Longrightarrow> foldl (pend_apply rest) ps pevs = ps"
proof (induction pevs)
  case Nil
  then show ?case by simp
next
  case (Cons ev pevs)
  then obtain frc rnd where "ev = PStep frc rnd" by (cases ev) auto
  with Cons show ?case by (simp add: pend_simulateStep_def)
qed

text \<open>
  C4 (terminal stickiness). Once \<^verbatim>\<open>crashed\<close> is set, a step of either drone leaves the
  whole state as it is, whatever the control signal, and so does every sequence of
  steps, setpoint changes and added weights; once \<^verbatim>\<open>fallen\<close> is set, a pendulum step and
  every sequence of pendulum steps leave the whole state as it is; the standalone
  pendulum step called with \<^verbatim>\<open>currentFallen\<close> returns \<^verbatim>\<open>null\<close> and the state as it is.
  Only the reset gives a state with the flag cleared.
\<close>

theorem terminal_state_is_sticky:
  "(crashed s \<longrightarrow> drone_simulateStep u s = s)
   \<and> (crashed d \<longrightarrow> sa_simulateStep p u d = Some d)
   \<and> (crashed d \<and> Reset \<notin> set evs \<longrightarrow> foldl drone_apply d evs = d)
   \<and> \<not> crashed drone_resetSimulation
   \<and> (fallen ps \<longrightarrow> pend_simulateStep frc rnd ps = ps)
   \<and> (fallen ps \<and> (\<forall>r. PReset r \<notin> set pevs) \<longrightarrow> foldl (pend_apply rest) ps pevs = ps)
   \<and> \<not> fallen (pend_resetSimulation rnd rest)
   \<and> sa_pend_simulateStep frc True tilt rnd ss = (None, ss)"
  by (simp add: drone_simulateStep_def sa_simulateStep_def drone_events_crashed
      drone_resetSimulation_def pend_simulateStep_def pend_steps_fallen pend_resetSimulation_def
      sa_pend_simulateStep_def)

theorem terminal_state_is_sticky_witness:
  "crashed (drone_resetSimulation\<lparr>altitude := 0, crashed := True\<rparr>)
   \<and> Reset \<notin> set [Step 100, AddWeight, ChangeSetpoint (1 / 2), Step (- 3)]
   \<and> foldl drone_apply (drone_resetSimulation\<lparr>altitude := 0, crashed := True\<rparr>)
        [Step 100, AddWeight, ChangeSetpoint (1 / 2), Step (- 3)]
      = drone_resetSimulation\<lparr>altitude := 0, crashed := True\<rparr>
   \<and> sa_simulateStep
        \<lparr>setpointMode = CONSTANT, constantSetpoint = 50, sineAmplitude = 20,
           sineFrequency = 1 / 10, boxAmplitude = 20, boxFrequency = 1 / 10\<rparr>
        100 (drone_resetSimulation\<lparr>altitude := 0, crashed := True\<rparr>)
      = Some (drone_resetSimulation\<lparr>altitude := 0, crashed := True\<rparr>)
   \<and> fallen ((pend_resetSimulation (1 / 2) ())\<lparr>theta := 2, fallen := True\<rparr>)
   \<and> foldl (pend_apply ()) ((pend_resetSimulation (1 / 2) ())\<lparr>theta := 2, fallen := True\<rparr>)
        [PStep 10 (3 / 10), PStep (- 5) (9 / 10)]
      = (pend_resetSimulation (1 / 2) ())\<lparr>theta := 2, fallen := True\<rparr>"
proof -
  let ?d = "drone_resetSimulation\<lparr>altitude := 0, crashed := True\<rparr>"
  let ?evs = "[Step 100, AddWeight, ChangeSetpoint (1 / 2), Step (- 3)]"
  let ?ps = "(pend_resetSimulation (1 / 2) ())\<lparr>theta := 2, fallen := True\<rparr>"
  let ?pevs = "[PStep 10 (3 / 10), PStep (- 5) (9 / 10)]"
  let ?p = "\<lparr>setpointMode = CONSTANT, constantSetpoint = 50, sineAmplitude = 20,
      sineFrequency = 1 / 10, boxAmplitude = 20, boxFrequency = 1 / 10\<rparr>"
  let ?ss = "\<lparr>time = 0, theta = 0, thetaDot = 0, xPos = 0, xDot = 0, force = 0, floorTilt = 0\<rparr>"
  have h1: "crashed ?d" by simp
  have h2: "Reset \<notin> set ?evs" by simp
  have h3: "fallen ?ps" by simp
  have h4: "\<forall>r. PReset r \<notin> set ?pevs" by simp
  note t = terminal_state_is_sticky [of ?d 100 ?d ?p ?evs ?ps 10 "3 / 10" ?pevs "()" 0 ?ss]
  from t h1 h2 have c1: "foldl drone_apply ?d ?evs = ?d" by blast
  from t h1 have c2: "sa_simulateStep ?p 100 ?d = Some ?d" by blast
  from t h3 h4 have c3: "foldl (pend_apply ()) ?ps ?pevs = ?ps" by blast
  show ?thesis by (intro conjI h1 h2 h3 c1 c2 c3)
qed

section \<open>Dynamics of the thrust body\<close>

lemma crash_check_fields:
  "time (crash_check s) = time s" "thrust (crash_check s) = thrust s"
  "mass (crash_check s) = mass s" "setpoint (crash_check s) = setpoint s"
  by (simp_all add: crash_check_def)

lemma crash_check_inside:
  "0 < altitude s \<Longrightarrow> altitude s < MAX_ALTITUDE \<Longrightarrow> crash_check s = s"
  by (simp add: crash_check_def)

lemma crash_check_outside:
  "altitude s \<le> 0 \<or> MAX_ALTITUDE \<le> altitude s \<Longrightarrow>
   crash_check s = s\<lparr>crashed := True, altitude := max 0 (min MAX_ALTITUDE (altitude s)), velocity := 0\<rparr>"
  by (simp add: crash_check_def)

text \<open>
  C7 (thrust body), as the code has it. A step of a drone that has not crashed clamps
  the control signal to the thrust range and stores it, advances the time by the
  timestep and integrates the velocity and then, with the new velocity, the altitude.
  In the embedded simulator and in \<^verbatim>\<open>drone_simulator.jsx\<close> the net force is the hover
  baseline \<open>BASE_DRONE_MASS * GRAVITY\<close> plus the clamped signal minus the weight, and
  the acceleration is the net force over the mass when the mass is positive. In
  DroneAltitudeStandalone.jsx there is no hover baseline: the net force is the clamped
  signal (range \<open>\<plusminus>2000\<close>) minus the weight, and the setpoint is recomputed for the new
  time. When the new altitude lies strictly between the ground and the ceiling these
  are the values of the new state; otherwise the drone has crashed, its velocity is
  zero and its altitude is clamped to the range.
\<close>

theorem drone_step_dynamics:
  "(\<not> crashed s \<and> 0 < mass s \<longrightarrow>
      (let c = max MIN_THRUST (min MAX_THRUST u);
           netForce = (BASE_DRONE_MASS * GRAVITY + c) - mass s * GRAVITY;
           v = velocity s + netForce / mass s * drone_DT;
           h = altitude s + v * drone_DT;
           s' = s\<lparr>thrust := c, velocity := v, altitude := h, time := time s + drone_DT\<rparr>
       in drone_simulateStep u s = crash_check s'
          \<and> thrust (drone_simulateStep u s) = c
          \<and> time (drone_simulateStep u s) = time s + drone_DT
          \<and> (0 < h \<and> h < MAX_ALTITUDE \<longrightarrow> drone_simulateStep u s = s')
          \<and> (h \<le> 0 \<or> MAX_ALTITUDE \<le> h \<longrightarrow>
                drone_simulateStep u s =
                  s'\<lparr>crashed := True, altitude := max 0 (min MAX_ALTITUDE h), velocity := 0\<rparr>)))
   \<and> (\<not> crashed d \<and> mass d \<noteq> 0 \<longrightarrow>
      (let c = max sa_MIN_THRUST (min sa_MAX_THRUST u);
           netForce = c - mass d * GRAVITY;
           v = velocity d + netForce / mass d * drone_DT;
           h = altitude d + v * drone_DT;
           d' = d\<lparr>thrust := c, velocity := v, altitude := h, time := time d + drone_DT,
                  setpoint := calculateSetpoint p (time d + drone_DT)\<rparr>
       in sa_simulateStep p u d = Some (crash_check d')
          \<and> (0 < h \<and> h < MAX_ALTITUDE \<longrightarrow> sa_simulateStep p u d = Some d')
          \<and> (h \<le> 0 \<or> MAX_ALTITUDE \<le> h \<longrightarrow>
                sa_simulateStep p u d =
                  Some (d'\<lparr>crashed := True, altitude := max 0 (min MAX_ALTITUDE h), velocity := 0\<rparr>))))"
proof -
  have a: "drone_simulateStep u s =
      crash_check (s\<lparr>thrust := max MIN_THRUST (min MAX_THRUST u),
        velocity := velocity s
          + ((BASE_DRONE_MASS * GRAVITY + max MIN_THRUST (min MAX_THRUST u)) - mass s * GRAVITY)
            / mass s * drone_DT,
        altitude := altitude s + (velocity s
          + ((BASE_DRONE_MASS * GRAVITY + max MIN_THRUST (min MAX_THRUST u)) - mass s * GRAVITY)
            / mass s * drone_DT) * drone_DT,
        time := time s + drone_DT\<rparr>)"
    if "\<not> crashed s" "0 < mass s"
    using that by (simp add: drone_simulateStep_def Let_def)
  have b: "sa_simulateStep p u d =
      Some (crash_check (d\<lparr>thrust := max sa_MIN_THRUST (min sa_MAX_THRUST u),
        velocity := velocity d
          + (max sa_MIN_THRUST (min sa_MAX_THRUST u) - mass d * GRAVITY) / mass d * drone_DT,
        altitude := altitude d + (velocity d
          + (max sa_MIN_THRUST (min sa_MAX_THRUST u) - mass d * GRAVITY) / mass d * drone_DT)
            * drone_DT,
        time := time d + drone_DT,
        setpoint := calculateSetpoint p (time d + drone_DT)\<rparr>))"
    if "\<not> crashed d" "mass d \<noteq> 0"
    using that by (simp add: sa_simulateStep_def Let_def)
  show ?thesis
    unfolding Let_def
    by (intro conjI impI; (elim conjE)?)
       (simp_all add: a b crash_check_fields crash_check_inside crash_check_outside)
qed

theorem drone_step_dynamics_witness:
  "\<not> crashed drone_resetSimulation \<and> 0 < mass drone_resetSimulation
   \<and> drone_simulateStep 100 drone_resetSimulation =
       drone_resetSimulation\<lparr>thrust := 100, velocity := 1 / 20, altitude := 50 + 1 / 20000,
         time := 1 / 1000\<rparr>
   \<and> mass (drone_resetSimulation\<lparr>mass := 10\<rparr>) \<noteq> 0
   \<and> sa_simulateStep
        \<lparr>setpointMode = CONSTANT, constantSetpoint = 50, sineAmplitude = 20,
           sineFrequency = 1 / 10, boxAmplitude = 20, boxFrequency = 1 / 10\<rparr>
        0 (drone_resetSimulation\<lparr>mass := 10\<rparr>) =
       Some (drone_resetSimulation\<lparr>mass := 10, thrust := 0, velocity := - 981 / 100000,
         altitude := 50 - 981 / 100000000, time := 1 / 1000, setpoint := 50\<rparr>)"
  using drone_step_dynamics [of drone_resetSimulation 100 "drone_resetSimulation\<lparr>crashed := True\<rparr>"]
    drone_step_dynamics [of "drone_resetSimulation\<lparr>crashed := True\<rparr>" 0
      "drone_resetSimulation\<lparr>mass := 10\<rparr>"
      "\<lparr>setpointMode = CONSTANT, constantSetpoint = 50, sineAmplitude = 20,
           sineFrequency = 1 / 10, boxAmplitude = 20, boxFrequency = 1 / 10\<rparr>"]
  by (simp add: Let_def drone_resetSimulation_def BASE_DRONE_MASS_def GRAVITY_def MAX_THRUST_def
      MIN_THRUST_def sa_MAX_THRUST_def sa_MIN_THRUST_def drone_DT_def MAX_ALTITUDE_def
      calculateSetpoint_def crash_check_def)

text \<open>
  The claim as stated fails for DroneAltitudeStandalone.jsx: from rest with mass 10 and
  control signal 0 its step gives the velocity of free fall, \<open>-9.81 * 0.001\<close>, while
  the net force with the hover baseline of the other simulators would give
  \<open>(19.62 - 98.1) / 10 * 0.001\<close>.
\<close>

theorem standalone_drone_no_hover_baseline_counterexample:
  "map_option velocity (sa_simulateStep
        \<lparr>setpointMode = CONSTANT, constantSetpoint = 50, sineAmplitude = 20,
           sineFrequency = 1 / 10, boxAmplitude = 20, boxFrequency = 1 / 10\<rparr>
        0 (drone_resetSimulation\<lparr>mass := 10\<rparr>)) = Some (- 981 / 100000)
   \<and> velocity (drone_resetSimulation\<lparr>mass := 10\<rparr>)
       + ((BASE_DRONE_MASS * GRAVITY + max sa_MIN_THRUST (min sa_MAX_THRUST 0))
           - mass (drone_resetSimulation\<lparr>mass := 10\<rparr>) * GRAVITY)
         / mass (drone_resetSimulation\<lparr>mass := 10\<rparr>) * drone_DT = - 981 / 125000"
  by (simp add: sa_simulateStep_def crash_check_def Let_def drone_resetSimulation_def
      BASE_DRONE_MASS_def GRAVITY_def sa_MAX_THRUST_def sa_MIN_THRUST_def drone_DT_def
      MAX_ALTITUDE_def calculateSetpoint_def)

section \<open>Setpoint generators\<close>

lemma js_rem_nonneg:
  assumes "0 \<le> t" "0 < f"
  shows "js_rem t (1 / f) / (1 / f) = frac (t * f)"
proof -
  have "0 \<le> t * f" using assms by simp
  then have "js_trunc (t / (1 / f)) = \<lfloor>t * f\<rfloor>" by (simp add: js_trunc_def)
  then have "js_rem t (1 / f) = t - (1 / f) * of_int \<lfloor>t * f\<rfloor>" by (simp add: js_rem_def)
  then show ?thesis using assms(2) by (simp add: frac_def field_simps)
qed

text \<open>
  C9 (setpoint profiles). In sine mode the setpoint at time \<open>t\<close> is the base 50 plus the
  amplitude times \<open>sin (2 \<pi> f t)\<close>. In box mode with a frequency other than zero it is
  the base plus the amplitude when \<open>(t % (1/f)) / (1/f) < 0.5\<close> and the base minus the
  amplitude otherwise, where \<open>%\<close> is the remainder of the source; for a time that is
  not negative and a positive frequency that phase is the fractional part of \<open>t f\<close>.
  At time 2.5 with amplitude 20 and frequency 0.1 the sine setpoint is
  \<open>50 + 20 sin (2 \<pi> 0.1 2.5)\<close>, which is 70.
\<close>

theorem setpoint_profiles:
  "calculateSetpoint (p\<lparr>setpointMode := SINE\<rparr>) t =
     50 + sineAmplitude p * sin (2 * pi * sineFrequency p * t)
   \<and> (boxFrequency p \<noteq> 0 \<longrightarrow>
        calculateSetpoint (p\<lparr>setpointMode := BOX\<rparr>) t =
          (if js_rem t (1 / boxFrequency p) / (1 / boxFrequency p) < 1 / 2
           then 50 + boxAmplitude p else 50 - boxAmplitude p))
   \<and> (0 \<le> t \<and> 0 < boxFrequency p \<longrightarrow>
        js_rem t (1 / boxFrequency p) / (1 / boxFrequency p) = frac (t * boxFrequency p))
   \<and> calculateSetpoint
        \<lparr>setpointMode = SINE, constantSetpoint = c, sineAmplitude = 20, sineFrequency = 1 / 10,
           boxAmplitude = a, boxFrequency = f\<rparr> (5 / 2) = 50 + 20 * sin (2 * pi * (1 / 10) * (5 / 2))
   \<and> calculateSetpoint
        \<lparr>setpointMode = SINE, constantSetpoint = c, sineAmplitude = 20, sineFrequency = 1 / 10,
           boxAmplitude = a, boxFrequency = f\<rparr> (5 / 2) = 70"
proof -
  have "2 * pi * (1 / 10) * (5 / 2) = pi / 2" by simp
  then have s: "sin (2 * pi * (1 / 10) * (5 / 2)) = 1" by (simp only: sin_pi_half)
  have "calculateSetpoint
        \<lparr>setpointMode = SINE, constantSetpoint = c, sineAmplitude = 20, sineFrequency = 1 / 10,
           boxAmplitude = a, boxFrequency = f\<rparr> (5 / 2) = 50 + 20 * sin (2 * pi * (1 / 10) * (5 / 2))"
    by (simp add: calculateSetpoint_def)
  moreover from this have "calculateSetpoint
        \<lparr>setpointMode = SINE, constantSetpoint = c, sineAmplitude = 20, sineFrequency = 1 / 10,
           boxAmplitude = a, boxFrequency = f\<rparr> (5 / 2) = 70"
    by (simp only: s)
  moreover have "calculateSetpoint (p\<lparr>setpointMode := SINE\<rparr>) t =
     50 + sineAmplitude p * sin (2 * pi * sineFrequency p * t)"
    by (simp add: calculateSetpoint_def)
  moreover have "calculateSetpoint (p\<lparr>setpointMode := BOX\<rparr>) t =
          (if js_rem t (1 / boxFrequency p) / (1 / boxFrequency p) < 1 / 2
           then 50 + boxAmplitude p else 50 - boxAmplitude p)" if "boxFrequency p \<noteq> 0"
    using that by (simp add: calculateSetpoint_def box_phase_def Let_def)
  ultimately show ?thesis using js_rem_nonneg [of t "boxFrequency p"] by blast
qed

theorem setpoint_profiles_witness:
  "boxFrequency \<lparr>setpointMode = BOX, constantSetpoint = 50, sineAmplitude = 20,
        sineFrequency = 1 / 10, boxAmplitude = 20, boxFrequency = 1 / 10\<rparr> \<noteq> 0
   \<and> (0::real) \<le> 7
   \<and> 0 < boxFrequency \<lparr>setpointMode = BOX, constantSetpoint = 50, sineAmplitude = 20,
        sineFrequency = 1 / 10, boxAmplitude = 20, boxFrequency = 1 / 10\<rparr>
   \<and> calculateSetpoint \<lparr>setpointMode = BOX, constantSetpoint = 50, sineAmplitude = 20,
        sineFrequency = 1 / 10, boxAmplitude = 20, boxFrequency = 1 / 10\<rparr> 7 = 30
   \<and> js_rem 7 (1 / (1 / 10)) / (1 / (1 / 10)) = 7 / 10"
  using setpoint_profiles [of "\<lparr>setpointMode = BOX, constantSetpoint = 50, sineAmplitude = 20,
        sineFrequency = 1 / 10, boxAmplitude = 20, boxFrequency = 1 / 10\<rparr>" 7]
  by (simp add: js_rem_def js_trunc_def frac_def)

section \<open>Steady state of the thermal tank\<close>

lemma tub_rate_bounds: "0 < tub_rate" "tub_rate < 1"
  by (simp_all add: tub_rate_def HEAT_LOSS_COEFFICIENT_def tub_DT_def THERMAL_MASS_def
      WATER_MASS_def SPECIFIC_HEAT_def)

lemma tub_step_temperature:
  assumes "MIN_HEATER_POWER \<le> p" "p \<le> MAX_HEATER_POWER"
  shows "temperature (tub_simulateStep p s) =
     max 0 (min 50 (temperature s
       + ((p - HEAT_LOSS_COEFFICIENT * (temperature s - ambient s)) * tub_DT) / THERMAL_MASS))"
  using assms by (simp add: tub_simulateStep_def Let_def)

lemma tub_step_ambient: "ambient (tub_simulateStep p s) = ambient s"
  by (simp add: tub_simulateStep_def Let_def)

lemma tub_steps_ambient: "ambient ((tub_simulateStep p ^^ n) s) = ambient s"
  by (induction n) (simp_all add: tub_step_ambient)

lemma clamp_contract:
  fixes a b c y :: real
  assumes "0 \<le> c" "c \<le> 50" "y = c + a + b"
    and "b = 0 \<or> (c = 50 \<and> 0 \<le> b) \<or> (c = 0 \<and> b \<le> 0)"
  shows "\<bar>max 0 (min 50 y) - c\<bar> \<le> \<bar>a\<bar>"
  using assms by (elim disjE) (simp_all add: max_def min_def abs_if split: if_splits)

lemma tub_step_contract:
  assumes "MIN_HEATER_POWER \<le> p" "p \<le> MAX_HEATER_POWER"
  shows "\<bar>temperature (tub_simulateStep p s) - tub_steady (ambient s) p\<bar>
     \<le> (1 - tub_rate) * \<bar>temperature s - tub_steady (ambient s) p\<bar>"
proof -
  define T where "T = temperature s"
  define Ts where "Ts = ambient s + p / HEAT_LOSS_COEFFICIENT"
  define c where "c = max 0 (min 50 Ts)"
  define a where "a = (1 - tub_rate) * (T - c)"
  define b where "b = tub_rate * (Ts - c)"
  define y where "y = T + ((p - HEAT_LOSS_COEFFICIENT * (T - ambient s)) * tub_DT) / THERMAL_MASS"
  have H: "HEAT_LOSS_COEFFICIENT \<noteq> 0" by (simp add: HEAT_LOSS_COEFFICIENT_def)
  have "(p - HEAT_LOSS_COEFFICIENT * (T - ambient s)) = HEAT_LOSS_COEFFICIENT * (Ts - T)"
    unfolding Ts_def using H by (simp add: field_simps)
  then have "y = T + tub_rate * (Ts - T)"
    unfolding y_def tub_rate_def by simp
  then have y: "y = c + a + b"
    unfolding a_def b_def by (simp add: algebra_simps)
  have c: "0 \<le> c" "c \<le> 50" unfolding c_def by simp_all
  have k: "0 < tub_rate" "0 \<le> 1 - tub_rate" using tub_rate_bounds by simp_all
  have b: "b = 0 \<or> (c = 50 \<and> 0 \<le> b) \<or> (c = 0 \<and> b \<le> 0)"
  proof -
    consider "Ts < 0" | "0 \<le> Ts" "Ts \<le> 50" | "50 < Ts" by linarith
    then show ?thesis
    proof cases
      case 1
      then have "c = 0" unfolding c_def by simp
      moreover have "b \<le> 0" unfolding b_def \<open>c = 0\<close> using 1 k(1)
        by (simp add: mult_le_0_iff)
      ultimately show ?thesis by simp
    next
      case 2
      then have "c = Ts" unfolding c_def by simp
      then show ?thesis unfolding b_def by simp
    next
      case 3
      then have "c = 50" unfolding c_def by simp
      moreover have "0 \<le> b" unfolding b_def \<open>c = 50\<close> using 3 k(1) by simp
      ultimately show ?thesis by simp
    qed
  qed
  have "\<bar>max 0 (min 50 y) - c\<bar> \<le> \<bar>a\<bar>"
    using c y b by (rule clamp_contract)
  also have "\<bar>a\<bar> = (1 - tub_rate) * \<bar>T - c\<bar>"
    unfolding a_def using k(2) by (simp add: abs_mult)
  finally show ?thesis
    using assms unfolding tub_step_temperature [OF assms] tub_steady_def
    by (simp add: y_def T_def c_def Ts_def)
qed

lemma tub_steps_contract:
  assumes "MIN_HEATER_POWER \<le> p" "p \<le> MAX_HEATER_POWER"
  shows "\<bar>temperature ((tub_simulateStep p ^^ n) s) - tub_steady (ambient s) p\<bar>
     \<le> (1 - tub_rate) ^ n * \<bar>temperature s - tub_steady (ambient s) p\<bar>"
proof (induction n)
  case 0
  then show ?case by simp
next
  case (Suc n)
  let ?s = "(tub_simulateStep p ^^ n) s"
  have "\<bar>temperature (tub_simulateStep p ?s) - tub_steady (ambient ?s) p\<bar>
      \<le> (1 - tub_rate) * \<bar>temperature ?s - tub_steady (ambient ?s) p\<bar>"
    using assms by (rule tub_step_contract)
  also have "\<dots> \<le> (1 - tub_rate) * ((1 - tub_rate) ^ n * \<bar>temperature s - tub_steady (ambient s) p\<bar>)"
    using Suc.IH tub_rate_bounds by (intro mult_left_mono) (simp_all add: tub_steps_ambient)
  finally show ?case by (simp add: tub_steps_ambient mult.assoc)
qed

lemma tub_steps_limit:
  assumes "MIN_HEATER_POWER \<le> p" "p \<le> MAX_HEATER_POWER"
  shows "(\<lambda>n. temperature ((tub_simulateStep p ^^ n) s)) \<longlonglongrightarrow> tub_steady (ambient s) p"
proof -
  have "(\<lambda>n. (1 - tub_rate) ^ n) \<longlonglongrightarrow> 0"
    using tub_rate_bounds by (intro LIMSEQ_realpow_zero) simp_all
  moreover have "\<forall>\<^sub>F n in sequentially.
      norm (temperature ((tub_simulateStep p ^^ n) s) - tub_steady (ambient s) p)
        \<le> norm ((1 - tub_rate) ^ n) * \<bar>temperature s - tub_steady (ambient s) p\<bar>"
    using tub_steps_contract [OF assms, of _ s] tub_rate_bounds by (intro always_eventually) simp
  ultimately have "(\<lambda>n. temperature ((tub_simulateStep p ^^ n) s) - tub_steady (ambient s) p)
      \<longlonglongrightarrow> 0"
    by (rule tendsto_0_le)
  then show ?thesis by (simp only: LIM_zero_iff)
qed

text \<open>
  C6 (thermal tank). With a heater power \<open>p\<close> inside the heater's range, a step adds
  \<open>((p - heatLossCoefficient * (T - A)) * dt) / thermalMass\<close> to the temperature \<open>T\<close>
  and clamps the sum to \<open>[0, 50]\<close>; the ambient temperature \<open>A\<close> is left alone. The
  temperature \<open>A + p / heatLossCoefficient\<close>, clamped to that range, is a fixed point of
  the step, and the temperatures of the iterated step converge to it from every
  state. For ambient 20 and power 5000 it is 30.
\<close>

theorem thermal_tank_steady_state:
  assumes "MIN_HEATER_POWER \<le> p" "p \<le> MAX_HEATER_POWER"
  shows "temperature (tub_simulateStep p s) =
       max 0 (min 50 (temperature s
         + ((p - HEAT_LOSS_COEFFICIENT * (temperature s - ambient s)) * tub_DT) / THERMAL_MASS))
     \<and> ambient (tub_simulateStep p s) = ambient s
     \<and> (temperature s = tub_steady (ambient s) p \<longrightarrow>
          temperature (tub_simulateStep p s) = temperature s)
     \<and> (\<lambda>n. temperature ((tub_simulateStep p ^^ n) s)) \<longlonglongrightarrow> tub_steady (ambient s) p
     \<and> tub_steady 20 5000 = 30"
proof -
  have "temperature (tub_simulateStep p s) = temperature s"
    if "temperature s = tub_steady (ambient s) p"
    using tub_step_contract [OF assms, of s] that by simp
  moreover have "tub_steady 20 5000 = 30"
    by (simp add: tub_steady_def HEAT_LOSS_COEFFICIENT_def)
  ultimately show ?thesis
    using tub_step_temperature [OF assms, of s] tub_steps_limit [OF assms, of s]
    by (simp add: tub_step_ambient)
qed

theorem thermal_tank_steady_state_witness:
  "MIN_HEATER_POWER \<le> 5000 \<and> 5000 \<le> MAX_HEATER_POWER
   \<and> temperature \<lparr>time = 0, setpoint = 38, temperature = 30, ambient = 20, heaterPower = 0\<rparr>
       = tub_steady (ambient \<lparr>time = 0, setpoint = 38, temperature = 30, ambient = 20, heaterPower = 0\<rparr>) 5000
   \<and> temperature (tub_simulateStep 5000
        \<lparr>time = 0, setpoint = 38, temperature = 30, ambient = 20, heaterPower = 0\<rparr>) = 30
   \<and> temperature (tub_simulateStep 5000
        \<lparr>time = 0, setpoint = 38, temperature = 38, ambient = 20, heaterPower = 0\<rparr>)
       = 38 - 4000 * (1 / 10) / 6279000
   \<and> (\<lambda>n. temperature ((tub_simulateStep 5000 ^^ n)
        \<lparr>time = 0, setpoint = 38, temperature = 38, ambient = 20, heaterPower = 0\<rparr>))
       \<longlonglongrightarrow> 30"
proof -
  let ?s30 = "\<lparr>time = 0, setpoint = 38, temperature = 30, ambient = 20, heaterPower = 0\<rparr>"
  let ?s38 = "\<lparr>time = 0, setpoint = 38, temperature = 38, ambient = 20, heaterPower = 0\<rparr>"
  have h1: "MIN_HEATER_POWER \<le> 5000" by (simp add: MIN_HEATER_POWER_def)
  have h2: "5000 \<le> MAX_HEATER_POWER" by (simp add: MAX_HEATER_POWER_def)
  have h3: "temperature ?s30 = tub_steady (ambient ?s30) 5000"
    by (simp add: tub_steady_def HEAT_LOSS_COEFFICIENT_def)
  note a = thermal_tank_steady_state [OF h1 h2, of ?s30]
  note b = thermal_tank_steady_state [OF h1 h2, of ?s38]
  from a have "temperature ?s30 = tub_steady (ambient ?s30) 5000 \<longrightarrow>
      temperature (tub_simulateStep 5000 ?s30) = temperature ?s30" by blast
  with h3 have "temperature (tub_simulateStep 5000 ?s30) = temperature ?s30" by blast
  then have c1: "temperature (tub_simulateStep 5000 ?s30) = 30" by simp
  from b have c2: "temperature (tub_simulateStep 5000 ?s38) = 38 - 4000 * (1 / 10) / 6279000"
    by (simp add: HEAT_LOSS_COEFFICIENT_def tub_DT_def THERMAL_MASS_def WATER_MASS_def
        SPECIFIC_HEAT_def)
  from b have c3: "(\<lambda>n. temperature ((tub_simulateStep 5000 ^^ n) ?s38)) \<longlonglongrightarrow> 30"
    by (simp add: tub_steady_def HEAT_LOSS_COEFFICIENT_def)
  show ?thesis by (intro conjI h1 h2 h3 c1 c2 c3)
qed

section \<open>Terminal conditions of the cart-pendulum\<close>

lemma normalize_angle_small: "- pi \<le> th \<Longrightarrow> th \<le> pi \<Longrightarrow> normalize_angle th = th"
  by (simp add: normalize_angle_def)

lemmas pend_constants =
  PENDULUM_MASS_def CART_MASS_def PENDULUM_LENGTH_def GRAVITY_def FRICTION_CART_def
  FRICTION_PENDULUM_def NOISE_AMPLITUDE_def pend_DT_def noise_of_def



lemma sa_pend_integrate_hanging:
  "sa_pend_integrate 0 0 (1 / 2)
     \<lparr>time = 0, theta = pi, thetaDot = 0, xPos = 10, xDot = 0, force = 0, floorTilt = 0\<rparr>
   = \<lparr>time = 1 / 1000, theta = pi, thetaDot = 0, xPos = 10, xDot = 0, force = 0, floorTilt = 0\<rparr>"
  by (simp add: sa_pend_integrate_def Let_def pend_constants normalize_angle_small)




text \<open>
  C10 (order of the checks in the standalone step). The track limit is tested first
  and returns at once: when the integrated state is beyond the track limit and beyond
  \<open>\<pi> / 2\<close>, the step reports \<^verbatim>\<open>'crashed'\<close>, not \<^verbatim>\<open>'fallen'\<close>.
\<close>

theorem crash_reported_before_fall:
  "\<bar>xPos (sa_pend_integrate frc tilt rnd s)\<bar> > sa_TRACK_WIDTH / 2 - 2 / 10
   \<and> \<bar>theta (sa_pend_integrate frc tilt rnd s)\<bar> > pi / 2 \<longrightarrow>
   fst (sa_pend_simulateStep frc False tilt rnd s) = Some Crashed
   \<and> fst (sa_pend_simulateStep frc False tilt rnd s) \<noteq> Some Fallen"
  by (simp add: sa_pend_simulateStep_def Let_def)

theorem crash_reported_before_fall_witness:
  "\<bar>xPos (sa_pend_integrate 0 0 (1 / 2)
       \<lparr>time = 0, theta = pi, thetaDot = 0, xPos = 10, xDot = 0, force = 0, floorTilt = 0\<rparr>)\<bar>
     > sa_TRACK_WIDTH / 2 - 2 / 10
   \<and> \<bar>theta (sa_pend_integrate 0 0 (1 / 2)
       \<lparr>time = 0, theta = pi, thetaDot = 0, xPos = 10, xDot = 0, force = 0, floorTilt = 0\<rparr>)\<bar>
     > pi / 2
   \<and> fst (sa_pend_simulateStep 0 False 0 (1 / 2)
       \<lparr>time = 0, theta = pi, thetaDot = 0, xPos = 10, xDot = 0, force = 0, floorTilt = 0\<rparr>)
     = Some Crashed"
proof -
  let ?s = "\<lparr>time = 0, theta = pi, thetaDot = 0, xPos = 10, xDot = 0, force = 0, floorTilt = 0\<rparr>"
  have h1: "\<bar>xPos (sa_pend_integrate 0 0 (1 / 2) ?s)\<bar> > sa_TRACK_WIDTH / 2 - 2 / 10"
    by (simp add: sa_pend_integrate_hanging sa_TRACK_WIDTH_def)
  have h2: "\<bar>theta (sa_pend_integrate 0 0 (1 / 2) ?s)\<bar> > pi / 2"
    by (simp add: sa_pend_integrate_hanging)
  from crash_reported_before_fall [of 0 0 "1 / 2" ?s] h1 h2
  have c: "fst (sa_pend_simulateStep 0 False 0 (1 / 2) ?s) = Some Crashed" by blast
  show ?thesis by (intro conjI h1 h2 c)
qed

section \<open>Rounding to doubles\<close>

lemma round_even_of_int: "round_even (of_int n) = n"
  by (simp add: round_even_def)

lemma dbl_exponent_eq:
  assumes "2 powi e \<le> \<bar>x\<bar>" "\<bar>x\<bar> < 2 powi (e + 1)" "- 1022 \<le> e"
  shows "dbl_exponent x = e"
proof -
  have pos: "0 < \<bar>x\<bar>"
    using assms(1) zero_less_power_int [of "2::real" e] by linarith
  have "(2::real) powr real_of_int e \<le> \<bar>x\<bar>"
    using assms(1) by (simp add: powr_real_of_int')
  moreover have "\<bar>x\<bar> < (2::real) powr (real_of_int e + 1)"
    using assms(2) powr_real_of_int' [of "2::real" "e + 1"] by simp
  ultimately have "\<lfloor>log 2 \<bar>x\<bar>\<rfloor> = e"
    using pos by (simp add: floor_log_eq_powr_iff)
  then show ?thesis using assms(3) by (simp add: dbl_exponent_def)
qed

lemma dbl_eval:
  assumes "2 powi e \<le> \<bar>x\<bar>" "\<bar>x\<bar> < 2 powi (e + 1)" "- 1022 \<le> e"
    and "round_even (x / 2 powi (e - 52)) = n"
  shows "dbl x = of_int n * 2 powi (e - 52)"
proof -
  have "0 < \<bar>x\<bar>"
    using assms(1) zero_less_power_int [of "2::real" e] by linarith
  then have "x \<noteq> 0" by simp
  then show ?thesis
    by (simp add: dbl_def dbl_exponent_eq [OF assms(1-3)] assms(4) Let_def)
qed

lemma dbl_int:
  assumes "x \<in> \<int>" "\<bar>x\<bar> < 2 ^ 53"
  shows "dbl x = x"
proof (cases "x = 0")
  case True
  then show ?thesis by (simp add: dbl_def)
next
  case False
  from assms(1) obtain k :: int where k: "x = of_int k" by (auto elim: Ints_cases)
  with False have "k \<noteq> 0" by auto
  then have one: "1 \<le> \<bar>x\<bar>" unfolding k by (simp flip: of_int_abs add: )
  define e where "e = \<lfloor>log 2 \<bar>x\<bar>\<rfloor>"
  have b: "(2::real) powr real_of_int e \<le> \<bar>x\<bar>" "\<bar>x\<bar> < (2::real) powr (real_of_int e + 1)"
    using one floor_log_eq_powr_iff [of "\<bar>x\<bar>" 2 e] by (simp_all add: e_def)
  have "(2::real) powr 0 < 2 powr (real_of_int e + 1)"
    using one b(2) by simp
  then have "(0::real) < real_of_int e + 1" by (rule powr_less_cancel) simp
  then have e0: "0 \<le> e" by linarith
  have "(2::real) powr real_of_int e < 2 powr 53"
    using b(1) assms(2) by simp
  then have "real_of_int e < 53" by (rule powr_less_cancel) simp
  then have e52: "e \<le> 52" by linarith
  have bi: "2 powi e \<le> \<bar>x\<bar>" "\<bar>x\<bar> < 2 powi (e + 1)"
    using b powr_real_of_int' [of "2::real" e] powr_real_of_int' [of "2::real" "e + 1"] by simp_all
  define m where "m = nat (52 - e)"
  have u: "(2::real) powi (e - 52) = inverse (2 ^ m)"
    using e52 by (simp add: power_int_def m_def power_one_over inverse_eq_divide)
  have "x / 2 powi (e - 52) = of_int (k * 2 ^ m)"
    unfolding u k by (simp add: field_simps)
  then have "round_even (x / 2 powi (e - 52)) = k * 2 ^ m"
    by (simp only: round_even_of_int)
  then have "dbl x = of_int (k * 2 ^ m) * 2 powi (e - 52)"
    using bi e0 by (intro dbl_eval) simp_all
  then show ?thesis unfolding u k by simp
qed

lemma dbl_evalI:
  assumes "2 powi e \<le> \<bar>x\<bar>" "\<bar>x\<bar> < 2 powi (e + 1)" "- 1022 \<le> e"
    and "round_even (x / 2 powi (e - 52)) = n" "of_int n * 2 powi (e - 52) = y"
  shows "dbl x = y"
  using dbl_eval [OF assms(1-4)] assms(5) by simp

section \<open>Frames on whole milliseconds\<close>

lemma steps_add: "steps body (j + k) s = Option.bind (steps body j s) (steps body k)"
  by (induction j arbitrary: s) (simp_all add: Option.bind_assoc cong: Option.bind_cong)

lemma steps_total: "(\<And>s. body s \<noteq> None) \<Longrightarrow> steps body k s \<noteq> None"
proof (induction k arbitrary: s)
  case 0
  then show ?case by simp
next
  case (Suc k)
  from Suc.prems [of s] obtain s' where "body s = Some s'" by (cases "body s") auto
  with Suc show ?case by simp
qed

lemma drain_stop: "acc < stepMs \<Longrightarrow> drain stepMs body acc s = Some (acc, s)"
  by (subst drain.simps) simp

lemma drain_step:
  "stepMs \<le> acc \<Longrightarrow>
   drain stepMs body acc s = Option.bind (body s) (drain stepMs body (dbl_sub acc stepMs))"
  by (subst drain.simps) simp

lemma drain_int:
  assumes "stepMs \<in> \<int>" "0 < stepMs"
  shows "acc \<in> \<int> \<Longrightarrow> acc < 2 ^ 53 \<Longrightarrow> nat \<lfloor>acc / stepMs\<rfloor> = k \<Longrightarrow>
     drain stepMs body acc s = map_option (\<lambda>s'. (acc - real k * stepMs, s')) (steps body k s)"
proof (induction k arbitrary: acc s)
  case 0
  then have "\<lfloor>acc / stepMs\<rfloor> \<le> 0" by simp
  then have "acc / stepMs < 1" by (simp add: floor_le_iff)
  then have "acc < stepMs" using assms(2) by (simp add: field_simps)
  then show ?case by (simp add: drain_stop)
next
  case (Suc k)
  then have f: "\<lfloor>acc / stepMs\<rfloor> = int k + 1" by linarith
  then have "1 \<le> acc / stepMs" using of_int_floor_le [of "acc / stepMs"] by simp
  then have ge: "stepMs \<le> acc" using assms(2) by (simp add: field_simps)
  have "acc - stepMs \<in> \<int>" using Suc.prems(1) assms(1) by simp
  moreover have "\<bar>acc - stepMs\<bar> < 2 ^ 53" using ge assms(2) Suc.prems(2) by simp
  ultimately have sub: "dbl_sub acc stepMs = acc - stepMs"
    unfolding dbl_sub_def by (rule dbl_int)
  have "(acc - stepMs) / stepMs = acc / stepMs - 1"
    using assms(2) by (simp add: field_simps)
  then have "nat \<lfloor>(acc - stepMs) / stepMs\<rfloor> = k" using f by simp
  moreover have "acc - stepMs \<in> \<int>" "acc - stepMs < 2 ^ 53"
    using Suc.prems(1,2) assms by simp_all
  ultimately have ih: "drain stepMs body (acc - stepMs) s' =
      map_option (\<lambda>s''. (acc - stepMs - real k * stepMs, s'')) (steps body k s')" for s'
    by (intro Suc.IH)
  have e: "acc - stepMs - real k * stepMs = acc - real (Suc k) * stepMs"
    by (simp add: algebra_simps)
  show ?case
    by (cases "body s") (simp_all add: drain_step [OF ge] sub ih e)
qed

lemma floor_split:
  fixes x y :: real
  assumes "x \<le> y"
  shows "nat \<lfloor>x\<rfloor> + nat \<lfloor>y - real (nat \<lfloor>x\<rfloor>)\<rfloor> = nat \<lfloor>y\<rfloor>"
proof (cases "0 \<le> \<lfloor>x\<rfloor>")
  case True
  have "\<lfloor>x\<rfloor> \<le> \<lfloor>y\<rfloor>" using assms by (rule floor_mono)
  moreover have "real (nat \<lfloor>x\<rfloor>) = of_int \<lfloor>x\<rfloor>" using True by simp
  then have "\<lfloor>y - real (nat \<lfloor>x\<rfloor>)\<rfloor> = \<lfloor>y\<rfloor> - \<lfloor>x\<rfloor>" by simp
  ultimately show ?thesis using True by simp linarith
next
  case False
  then show ?thesis by simp
qed

text \<open>
  A frame on whole milliseconds: every operation of the frame is exact, so the frame
  runs the whole number of steps that fit into the accumulated time.
\<close>

lemma loop_frame_int:
  assumes step: "dbl_mul dt 1000 \<in> \<int>" "0 < dbl_mul dt 1000"
    and v: "lastTime v \<in> \<int>" "accumulator v \<in> \<int>" "0 \<le> accumulator v"
    and t: "t \<in> \<int>" "lastTime v \<le> t" "t - lastTime v \<le> 50"
    and ts: "timeScale \<in> \<int>" "0 \<le> timeScale"
    and bound: "accumulator v + (t - lastTime v) * timeScale < 2 ^ 53"
  shows "loop_frame dt timeScale body v t =
     map_option (\<lambda>s'.
         \<lparr>lastTime = t,
          accumulator = accumulator v + (t - lastTime v) * timeScale
            - real (nat \<lfloor>(accumulator v + (t - lastTime v) * timeScale) / dbl_mul dt 1000\<rfloor>)
              * dbl_mul dt 1000,
          physics = s'\<rparr>)
       (steps body (nat \<lfloor>(accumulator v + (t - lastTime v) * timeScale) / dbl_mul dt 1000\<rfloor>)
          (physics v))"
proof -
  let ?d = "t - lastTime v"
  let ?a = "accumulator v + ?d * timeScale"
  have d0: "0 \<le> ?d" using t(2) by simp
  have p0: "0 \<le> ?d * timeScale" using d0 ts(2) by simp
  have "?d \<in> \<int>" using t(1) v(1) by simp
  moreover have "\<bar>?d\<bar> < 2 ^ 53" using d0 t(3) by simp
  ultimately have d: "dbl_sub t (lastTime v) = ?d" unfolding dbl_sub_def by (rule dbl_int)
  have m: "min ?d 50 = ?d" using t(3) by simp
  have "?d * timeScale \<in> \<int>" using \<open>?d \<in> \<int>\<close> ts(1) by simp
  moreover have "\<bar>?d * timeScale\<bar> < 2 ^ 53" using p0 bound v(3) by simp
  ultimately have p: "dbl_mul ?d timeScale = ?d * timeScale" unfolding dbl_mul_def by (rule dbl_int)
  have ai: "?a \<in> \<int>" using \<open>?d * timeScale \<in> \<int>\<close> v(2) by simp
  moreover have "\<bar>?a\<bar> < 2 ^ 53" using p0 bound v(3) by simp
  ultimately have a: "dbl_add (accumulator v) (?d * timeScale) = ?a"
    unfolding dbl_add_def by (rule dbl_int)
  show ?thesis
    unfolding loop_frame_def Let_def d m p a
    by (simp add: drain_int [OF step ai bound refl] option.map_comp comp_def)
qed

lemma loop_frame_int_inv:
  assumes step: "dbl_mul dt 1000 \<in> \<int>" "0 < dbl_mul dt 1000"
    and v: "lastTime v \<in> \<int>" "accumulator v \<in> \<int>" "0 \<le> accumulator v"
    and t: "t \<in> \<int>" "lastTime v \<le> t" "t - lastTime v \<le> 50"
    and ts: "timeScale \<in> \<int>" "0 \<le> timeScale"
    and bound: "accumulator v + (t - lastTime v) * timeScale < 2 ^ 53"
    and r: "loop_frame dt timeScale body v t = Some v'"
  shows "lastTime v' = t" "accumulator v' \<in> \<int>" "0 \<le> accumulator v'"
    "accumulator v' \<le> accumulator v + (t - lastTime v) * timeScale"
proof -
  let ?a = "accumulator v + (t - lastTime v) * timeScale"
  let ?step = "dbl_mul dt 1000"
  let ?k = "nat \<lfloor>?a / ?step\<rfloor>"
  from r have acc: "accumulator v' = ?a - real ?k * ?step" and lt: "lastTime v' = t"
    unfolding loop_frame_int [OF step v t ts bound] by auto
  show "lastTime v' = t" by (rule lt)
  have ai: "?a \<in> \<int>" using v(1,2) t(1) ts(1) by simp
  then show "accumulator v' \<in> \<int>" unfolding acc using step(1) by simp
  have a0: "0 \<le> ?a" using v(3) t(2) ts(2) by simp
  then have q0: "0 \<le> ?a / ?step" using step(2) by simp
  then have "real ?k \<le> ?a / ?step" by simp
  then have "real ?k * ?step \<le> ?a" using step(2) by (simp add: field_simps)
  then show "0 \<le> accumulator v'" unfolding acc by simp
  have "0 \<le> real ?k * ?step" using step(2) by simp
  then show "accumulator v' \<le> ?a" unfolding acc by simp
qed

lemma two_frames_int:
  assumes step: "dbl_mul dt 1000 \<in> \<int>" "0 < dbl_mul dt 1000"
    and v: "lastTime v \<in> \<int>" "accumulator v \<in> \<int>" "0 \<le> accumulator v"
    and t: "t \<in> \<int>" "lastTime v \<le> t" "t2 \<in> \<int>" "t \<le> t2" "t2 - lastTime v \<le> 50"
    and ts: "timeScale \<in> \<int>" "0 \<le> timeScale"
    and bound: "accumulator v + (t2 - lastTime v) * timeScale < 2 ^ 53"
  shows "Option.bind (loop_frame dt timeScale body v t) (\<lambda>v'. loop_frame dt timeScale body v' t2)
     = loop_frame dt timeScale body v t2"
proof -
  define stepMs where "stepMs = dbl_mul dt 1000"
  define a1 where "a1 = accumulator v + (t - lastTime v) * timeScale"
  define a where "a = accumulator v + (t2 - lastTime v) * timeScale"
  define k1 where "k1 = nat \<lfloor>a1 / stepMs\<rfloor>"
  define k2 where "k2 = nat \<lfloor>(a1 - real k1 * stepMs + (t2 - t) * timeScale) / stepMs\<rfloor>"
  have s: "0 < stepMs" unfolding stepMs_def by (rule step(2))
  have t': "lastTime v \<le> t2" "t - lastTime v \<le> 50" using t by simp_all
  have "(t - lastTime v) * timeScale \<le> (t2 - lastTime v) * timeScale"
    using t ts by (intro mult_right_mono) simp_all
  then have le: "a1 \<le> a" unfolding a1_def a_def by simp
  then have b1: "accumulator v + (t - lastTime v) * timeScale < 2 ^ 53"
    using bound unfolding a1_def a_def by simp
  have f1: "loop_frame dt timeScale body v t =
      map_option (\<lambda>s'. \<lparr>lastTime = t, accumulator = a1 - real k1 * stepMs, physics = s'\<rparr>)
        (steps body k1 (physics v))"
    unfolding a1_def k1_def stepMs_def
    by (rule loop_frame_int [OF step v t(1,2) t'(2) ts b1])
  have f: "loop_frame dt timeScale body v t2 =
      map_option (\<lambda>s'. \<lparr>lastTime = t2,
          accumulator = a - real (nat \<lfloor>a / stepMs\<rfloor>) * stepMs, physics = s'\<rparr>)
        (steps body (nat \<lfloor>a / stepMs\<rfloor>) (physics v))"
    unfolding a_def stepMs_def
    by (rule loop_frame_int [OF step v t(3) t'(1) t(5) ts bound])
  have f2: "loop_frame dt timeScale body
        \<lparr>lastTime = t, accumulator = a1 - real k1 * stepMs, physics = s'\<rparr> t2 =
      map_option (\<lambda>s''. \<lparr>lastTime = t2,
          accumulator = a1 - real k1 * stepMs + (t2 - t) * timeScale - real k2 * stepMs,
          physics = s''\<rparr>)
        (steps body k2 s')" for s'
  proof -
    let ?v = "\<lparr>lastTime = t, accumulator = a1 - real k1 * stepMs, physics = s'\<rparr>"
    have a1i: "a1 \<in> \<int>" unfolding a1_def using v(1,2) t(1) ts(1) by simp
    have i: "accumulator ?v \<in> \<int>" using a1i step(1) by (simp add: stepMs_def)
    have a10: "0 \<le> a1" unfolding a1_def using v(3) t(2) ts(2) by simp
    then have "0 \<le> a1 / stepMs" using s by simp
    then have "real k1 \<le> a1 / stepMs" unfolding k1_def by simp
    then have ks: "real k1 * stepMs \<le> a1" using s by (simp add: field_simps)
    then have n: "0 \<le> accumulator ?v" by simp
    have "0 \<le> real k1 * stepMs" using s by simp
    then have "accumulator ?v + (t2 - lastTime ?v) * timeScale \<le> a"
      unfolding a1_def a_def by (simp add: algebra_simps)
    then have b: "accumulator ?v + (t2 - lastTime ?v) * timeScale < 2 ^ 53"
      using bound unfolding a_def by simp
    have l: "lastTime ?v \<in> \<int>" "lastTime ?v \<le> t2" "t2 - lastTime ?v \<le> 50"
      using t by simp_all
    show ?thesis
      using loop_frame_int [OF step l(1) i n t(3) l(2,3) ts b, of body]
      by (simp add: k2_def stepMs_def)
  qed
  have ae: "a1 - real k1 * stepMs + (t2 - t) * timeScale = a - real k1 * stepMs"
    unfolding a1_def a_def by (simp add: algebra_simps)
  have "(a - real k1 * stepMs) / stepMs = a / stepMs - real k1"
    using s by (simp add: field_simps)
  moreover have k2': "k2 = nat \<lfloor>(a - real k1 * stepMs) / stepMs\<rfloor>"
    unfolding k2_def ae ..
  ultimately have "k2 = nat \<lfloor>a / stepMs - real k1\<rfloor>" by simp
  then have k2: "k2 = nat \<lfloor>a / stepMs - real (nat \<lfloor>a1 / stepMs\<rfloor>)\<rfloor>"
    unfolding k1_def .
  have "a1 / stepMs \<le> a / stepMs" using le s by (simp add: divide_right_mono)
  then have k: "k1 + k2 = nat \<lfloor>a / stepMs\<rfloor>"
    unfolding k2 unfolding k1_def by (rule floor_split)
  have acc: "a1 - real k1 * stepMs + (t2 - t) * timeScale - real k2 * stepMs
      = a - real (k1 + k2) * stepMs"
    unfolding ae by (simp add: algebra_simps)
  have "Option.bind (loop_frame dt timeScale body v t) (\<lambda>v'. loop_frame dt timeScale body v' t2)
      = map_option (\<lambda>s'. \<lparr>lastTime = t2, accumulator = a - real (k1 + k2) * stepMs, physics = s'\<rparr>)
          (Option.bind (steps body k1 (physics v)) (steps body k2))"
    unfolding f1 by (cases "steps body k1 (physics v)") (simp_all add: f2 acc)
  also have "\<dots> = loop_frame dt timeScale body v t2"
    unfolding f k [symmetric] by (simp add: steps_add)
  finally show ?thesis .
qed

lemma loop_frames_last_int:
  assumes step: "dbl_mul dt 1000 \<in> \<int>" "0 < dbl_mul dt 1000"
    and ts: "timeScale \<in> \<int>" "0 \<le> timeScale"
  shows "ts \<noteq> [] \<Longrightarrow> set ts \<subseteq> \<int> \<Longrightarrow> sorted (lastTime v # ts) \<Longrightarrow> last ts - lastTime v \<le> 50 \<Longrightarrow>
     lastTime v \<in> \<int> \<Longrightarrow> accumulator v \<in> \<int> \<Longrightarrow> 0 \<le> accumulator v \<Longrightarrow>
     accumulator v + (last ts - lastTime v) * timeScale < 2 ^ 53 \<Longrightarrow>
     loop_frames dt timeScale body v ts = loop_frame dt timeScale body v (last ts)"
proof (induction ts arbitrary: v)
  case Nil
  then show ?case by simp
next
  case (Cons t ts)
  show ?case
  proof (cases ts)
    case Nil
    then show ?thesis by simp
  next
    case (Cons t' ts')
    have l: "lastTime v \<le> t" "t \<le> last ts" "last ts - lastTime v \<le> 50" "t \<in> \<int>" "last ts \<in> \<int>"
      using Cons.prems Cons by auto
    have b: "accumulator v + (last ts - lastTime v) * timeScale < 2 ^ 53"
      using Cons.prems(8) Cons by simp
    have "(t - lastTime v) * timeScale \<le> (last ts - lastTime v) * timeScale"
      using l ts by (intro mult_right_mono) simp_all
    then have b1: "accumulator v + (t - lastTime v) * timeScale < 2 ^ 53" using b by simp
    have t50: "t - lastTime v \<le> 50" using l by simp
    have "loop_frames dt timeScale body v' ts = loop_frame dt timeScale body v' (last ts)"
      if r: "loop_frame dt timeScale body v t = Some v'" for v'
    proof -
      note inv = loop_frame_int_inv [OF step Cons.prems(5,6,7) l(4,1) t50 ts b1 r]
      have "accumulator v' + (last ts - t) * timeScale
          \<le> accumulator v + (t - lastTime v) * timeScale + (last ts - t) * timeScale"
        using inv(4) by simp
      also have "\<dots> = accumulator v + (last ts - lastTime v) * timeScale"
        by (simp add: algebra_simps)
      finally have "accumulator v' + (last ts - lastTime v') * timeScale < 2 ^ 53"
        using b inv(1) by simp
      then show ?thesis
        using Cons.prems Cons l inv by (intro Cons.IH) auto
    qed
    then have "loop_frames dt timeScale body v (t # ts) =
        Option.bind (loop_frame dt timeScale body v t) (\<lambda>v'. loop_frame dt timeScale body v' (last
            ts))"
      by (auto intro: Option.bind_cong)
    also have "\<dots> = loop_frame dt timeScale body v (last ts)"
      by (rule two_frames_int [OF step Cons.prems(5,6,7) l(4,1,5,2,3) ts b])
    finally show ?thesis using Cons by simp
  qed
qed

section \<open>Frames off the whole milliseconds\<close>

lemma drain_trace:
  "length as = Suc k \<Longrightarrow> (\<forall>i<k. stepMs \<le> as ! i \<and> as ! Suc i = dbl_sub (as ! i) stepMs) \<Longrightarrow>
   as ! k < stepMs \<Longrightarrow>
   drain stepMs body (as ! 0) s = map_option (\<lambda>s'. (as ! k, s')) (steps body k s)"
proof (induction k arbitrary: as s)
  case 0
  then show ?case by (simp add: drain_stop)
next
  case (Suc k)
  then obtain a as' where as: "as = a # as'" by (cases as) auto
  from Suc.prems(2) as have a: "stepMs \<le> a" "as' ! 0 = dbl_sub a stepMs" by auto
  have "stepMs \<le> as' ! i \<and> as' ! Suc i = dbl_sub (as' ! i) stepMs" if "i < k" for i
    using Suc.prems(2) [rule_format, of "Suc i"] that as by simp
  then have "\<forall>i<k. stepMs \<le> as' ! i \<and> as' ! Suc i = dbl_sub (as' ! i) stepMs"
    by blast
  then have "drain stepMs body (as' ! 0) s' = map_option (\<lambda>s''. (as' ! k, s'')) (steps body k s')"
    for s'
    using Suc.prems(1,3) as by (intro Suc.IH) auto
  then show ?case
    by (cases "body s") (simp_all add: as drain_step [OF a(1)] a(2) [symmetric])
qed

text \<open>
  The operations of two pairs of runs, each evaluated by rounding the exact result. The
  first pair has \<open>dt\<close> the double nearest to 0.0004 and frames at 1 ms and 2 ms; the
  second has the double nearest to 0.001 and frames at the doubles nearest to 0.2 ms
  and 5.1 ms after a start at 0.1 ms.
\<close>

lemma dbl_whole: "dbl 1 = 1" "dbl 2 = 2" "dbl 5 = 5"
  by (rule dbl_int; simp)+

lemma fine_step:
  "dbl_mul (7378697629483821 / 18446744073709551616) 1000 =
     3602879701896397 / 9007199254740992"
  unfolding dbl_mul_def
  by (rule dbl_evalI [where e = "- 2" and n = 7205759403792794]) (simp_all add: round_even_def)

lemma fine_first_1:
  "dbl_sub 1 (3602879701896397 / 9007199254740992) =
     5404319552844595 / 9007199254740992"
  unfolding dbl_sub_def
  by (rule dbl_evalI [where e = "- 1" and n = 5404319552844595]) (simp_all add: round_even_def)

lemma fine_first_2:
  "dbl_sub (5404319552844595 / 9007199254740992) (3602879701896397 / 9007199254740992) =
     900719925474099 / 4503599627370496"
  unfolding dbl_sub_def
  by (rule dbl_evalI [where e = "- 3" and n = 7205759403792792]) (simp_all add: round_even_def)

lemma fine_sum:
  "dbl_add (900719925474099 / 4503599627370496) 1 =
     5404319552844595 / 4503599627370496"
  unfolding dbl_add_def
  by (rule dbl_evalI [where e = 0 and n = 5404319552844595]) (simp_all add: round_even_def)

lemma fine_second_1:
  "dbl_sub (5404319552844595 / 4503599627370496) (3602879701896397 / 9007199254740992) =
     7205759403792793 / 9007199254740992"
  unfolding dbl_sub_def
  by (rule dbl_evalI [where e = "- 1" and n = 7205759403792793]) (simp_all add: round_even_def)

lemma fine_second_2:
  "dbl_sub (7205759403792793 / 9007199254740992) (3602879701896397 / 9007199254740992) =
     900719925474099 / 2251799813685248"
  unfolding dbl_sub_def
  by (rule dbl_evalI [where e = "- 2" and n = 7205759403792792]) (simp_all add: round_even_def)

lemma fine_whole_1:
  "dbl_sub 2 (3602879701896397 / 9007199254740992) =
     3602879701896397 / 2251799813685248"
  unfolding dbl_sub_def
  by (rule dbl_evalI [where e = 0 and n = 7205759403792794]) (simp_all add: round_even_def)

lemma fine_whole_2:
  "dbl_sub (3602879701896397 / 2251799813685248) (3602879701896397 / 9007199254740992) =
     1351079888211149 / 1125899906842624"
  unfolding dbl_sub_def
  by (rule dbl_evalI [where e = 0 and n = 5404319552844596]) (simp_all add: round_even_def)

lemma fine_whole_3:
  "dbl_sub (1351079888211149 / 1125899906842624) (3602879701896397 / 9007199254740992) =
     7205759403792795 / 9007199254740992"
  unfolding dbl_sub_def
  by (rule dbl_evalI [where e = "- 1" and n = 7205759403792795]) (simp_all add: round_even_def)

lemma fine_whole_4:
  "dbl_sub (7205759403792795 / 9007199254740992) (3602879701896397 / 9007199254740992) =
     1801439850948199 / 4503599627370496"
  unfolding dbl_sub_def
  by (rule dbl_evalI [where e = "- 2" and n = 7205759403792796]) (simp_all add: round_even_def)

lemma fine_whole_5:
  "dbl_sub (1801439850948199 / 4503599627370496) (3602879701896397 / 9007199254740992) =
     1 / 9007199254740992"
  unfolding dbl_sub_def
  by (rule dbl_evalI [where e = "- 53" and n = 4503599627370496]) (simp_all add: round_even_def)

lemma default_step: "dbl_mul (1152921504606847 / 1152921504606846976) 1000 = 1"
  unfolding dbl_mul_def
  by (rule dbl_evalI [where e = 0 and n = 4503599627370496]) (simp_all add: round_even_def)

lemma early_delta:
  "dbl_sub (3602879701896397 / 18014398509481984) (3602879701896397 / 36028797018963968) =
     3602879701896397 / 36028797018963968"
  unfolding dbl_sub_def
  by (rule dbl_evalI [where e = "- 4" and n = 7205759403792794]) (simp_all add: round_even_def)

lemma dbl_tenth: "dbl (3602879701896397 / 36028797018963968) = 3602879701896397 / 36028797018963968"
  by (rule dbl_evalI [where e = "- 4" and n = 7205759403792794]) (simp_all add: round_even_def)

lemma late_delta:
  "dbl_sub (2871044762448691 / 562949953421312) (3602879701896397 / 18014398509481984) =
     5516909543528857 / 1125899906842624"
  unfolding dbl_sub_def
  by (rule dbl_evalI [where e = 2 and n = 5516909543528857]) (simp_all add: round_even_def)

lemma dbl_late_delta:
  "dbl (5516909543528857 / 1125899906842624) =
     5516909543528857 / 1125899906842624"
  by (rule dbl_evalI [where e = 2 and n = 5516909543528857]) (simp_all add: round_even_def)

lemma late_sum:
  "dbl_add (3602879701896397 / 36028797018963968) (5516909543528857 / 1125899906842624) =
     5629499534213119 / 1125899906842624"
  unfolding dbl_add_def
  by (rule dbl_evalI [where e = 2 and n = 5629499534213119]) (simp_all add: round_even_def)

lemma late_drain_1:
  "dbl_sub (5629499534213119 / 1125899906842624) 1 =
     4503599627370495 / 1125899906842624"
  unfolding dbl_sub_def
  by (rule dbl_evalI [where e = 1 and n = 9007199254740990]) (simp_all add: round_even_def)

lemma late_drain_2:
  "dbl_sub (4503599627370495 / 1125899906842624) 1 =
     3377699720527871 / 1125899906842624"
  unfolding dbl_sub_def
  by (rule dbl_evalI [where e = 1 and n = 6755399441055742]) (simp_all add: round_even_def)

lemma late_drain_3:
  "dbl_sub (3377699720527871 / 1125899906842624) 1 =
     2251799813685247 / 1125899906842624"
  unfolding dbl_sub_def
  by (rule dbl_evalI [where e = 0 and n = 9007199254740988]) (simp_all add: round_even_def)

lemma late_drain_4:
  "dbl_sub (2251799813685247 / 1125899906842624) 1 =
     1125899906842623 / 1125899906842624"
  unfolding dbl_sub_def
  by (rule dbl_evalI [where e = "- 1" and n = 9007199254740984]) (simp_all add: round_even_def)

lemma whole_delta:
  "dbl_sub (2871044762448691 / 562949953421312) (3602879701896397 / 36028797018963968) =
     5"
  unfolding dbl_sub_def
  by (rule dbl_evalI [where e = 2 and n = 5629499534213120]) (simp_all add: round_even_def)

lemmas fine_ops = fine_step fine_first_1 fine_first_2 fine_sum fine_second_1 fine_second_2 fine_whole_1 fine_whole_2 fine_whole_3 fine_whole_4 fine_whole_5

lemmas late_ops = default_step early_delta dbl_tenth late_delta dbl_late_delta late_sum late_drain_1 late_drain_2 late_drain_3 late_drain_4 whole_delta

lemma fine_frame_first:
  "loop_frame (7378697629483821 / 18446744073709551616) 1 body \<lparr>lastTime = 0, accumulator = 0,
      physics = s\<rparr> 1 =
     map_option (\<lambda>s'. \<lparr>lastTime = 1, accumulator = 900719925474099 / 4503599627370496, physics =
         s'\<rparr>) (steps body 2 s)"
proof -
  have dr:
    "drain (3602879701896397 / 9007199254740992) body 1 s =
       map_option (\<lambda>s'. (900719925474099 / 4503599627370496, s')) (steps body 2 s)"
    using drain_trace [of "[1, 5404319552844595 / 9007199254740992, 900719925474099 /
        4503599627370496]" 2 "3602879701896397 / 9007199254740992" body s]
    by (simp add: eval_nat_numeral All_less_Suc fine_ops)
  have acc: "dbl_add 0 (dbl_mul (min (dbl_sub 1 0) 50) 1) = 1"
    by (simp add: dbl_sub_def dbl_mul_def dbl_add_def dbl_whole)
  show ?thesis
    by (simp add: loop_frame_def Let_def fine_step acc dr option.map_comp comp_def)
qed

lemma fine_frame_second:
  "loop_frame (7378697629483821 / 18446744073709551616) 1 body \<lparr>lastTime = 1, accumulator =
      900719925474099 / 4503599627370496, physics = s\<rparr> 2 =
     map_option (\<lambda>s'. \<lparr>lastTime = 2, accumulator = 900719925474099 / 2251799813685248, physics =
         s'\<rparr>) (steps body 2 s)"
proof -
  have dr:
    "drain (3602879701896397 / 9007199254740992) body (5404319552844595 / 4503599627370496) s =
       map_option (\<lambda>s'. (900719925474099 / 2251799813685248, s')) (steps body 2 s)"
    using drain_trace [of "[5404319552844595 / 4503599627370496, 7205759403792793 /
        9007199254740992, 900719925474099 / 2251799813685248]" 2 "3602879701896397 /
        9007199254740992" body s]
    by (simp add: eval_nat_numeral All_less_Suc fine_ops)
  have acc:
    "dbl_add (900719925474099 / 4503599627370496) (dbl_mul (min (dbl_sub 2 1) 50) 1) =
       5404319552844595 / 4503599627370496"
    by (simp add: dbl_sub_def dbl_mul_def dbl_whole fine_sum)
  show ?thesis
    by (simp add: loop_frame_def Let_def fine_step acc dr option.map_comp comp_def)
qed

lemma fine_frame_whole:
  "loop_frame (7378697629483821 / 18446744073709551616) 1 body \<lparr>lastTime = 0, accumulator = 0,
      physics = s\<rparr> 2 =
     map_option (\<lambda>s'. \<lparr>lastTime = 2, accumulator = 1 / 9007199254740992, physics = s'\<rparr>) (steps
         body 5 s)"
proof -
  have dr:
    "drain (3602879701896397 / 9007199254740992) body 2 s =
       map_option (\<lambda>s'. (1 / 9007199254740992, s')) (steps body 5 s)"
    using drain_trace [of "[2, 3602879701896397 / 2251799813685248, 1351079888211149 /
        1125899906842624, 7205759403792795 / 9007199254740992, 1801439850948199 /
        4503599627370496, 1 / 9007199254740992]" 5 "3602879701896397 / 9007199254740992" body s]
    by (simp add: eval_nat_numeral All_less_Suc fine_ops)
  have acc: "dbl_add 0 (dbl_mul (min (dbl_sub 2 0) 50) 1) = 2"
    by (simp add: dbl_sub_def dbl_mul_def dbl_add_def dbl_whole)
  show ?thesis
    by (simp add: loop_frame_def Let_def fine_step acc dr option.map_comp comp_def)
qed

lemma fine_frames_split:
  "loop_frames (7378697629483821 / 18446744073709551616) 1 body \<lparr>lastTime = 0, accumulator = 0,
      physics = s\<rparr> [1, 2] =
     map_option (\<lambda>s'. \<lparr>lastTime = 2, accumulator = 900719925474099 / 2251799813685248, physics =
         s'\<rparr>) (steps body 4 s)"
proof -
  have "steps body 4 s = Option.bind (steps body 2 s) (steps body 2)"
    using steps_add [of body 2 2 s] by simp
  then show ?thesis
    by (cases "steps body 2 s") (simp_all add: fine_frame_first fine_frame_second)
qed

lemma late_frame_first:
  "loop_frame (1152921504606847 / 1152921504606846976) 1 body \<lparr>lastTime = 3602879701896397 /
      36028797018963968, accumulator = 0, physics = s\<rparr> (3602879701896397 / 18014398509481984) =
     Some \<lparr>lastTime = 3602879701896397 / 18014398509481984, accumulator = 3602879701896397 /
         36028797018963968, physics = s\<rparr>"
proof -
  have acc:
    "dbl_add 0 (dbl_mul (min (dbl_sub (3602879701896397 / 18014398509481984) (3602879701896397 /
        36028797018963968)) 50) 1) =
       3602879701896397 / 36028797018963968"
    by (simp add: early_delta dbl_mul_def dbl_add_def dbl_tenth)
  show ?thesis
    by (simp add: loop_frame_def Let_def default_step acc drain_stop option.map_comp comp_def)
qed

lemma late_frame_second:
  "loop_frame (1152921504606847 / 1152921504606846976) 1 body \<lparr>lastTime = 3602879701896397 /
      18014398509481984, accumulator = 3602879701896397 / 36028797018963968, physics = s\<rparr>
      (2871044762448691 / 562949953421312) =
     map_option (\<lambda>s'. \<lparr>lastTime = 2871044762448691 / 562949953421312, accumulator =
         1125899906842623 / 1125899906842624, physics = s'\<rparr>) (steps body 4 s)"
proof -
  have dr:
    "drain 1 body (5629499534213119 / 1125899906842624) s =
       map_option (\<lambda>s'. (1125899906842623 / 1125899906842624, s')) (steps body 4 s)"
    using drain_trace [of "[5629499534213119 / 1125899906842624, 4503599627370495 /
        1125899906842624, 3377699720527871 / 1125899906842624, 2251799813685247 /
        1125899906842624, 1125899906842623 / 1125899906842624]" 4 1 body s]
    by (simp add: eval_nat_numeral All_less_Suc late_ops)
  have acc:
    "dbl_add (3602879701896397 / 36028797018963968) (dbl_mul (min (dbl_sub (2871044762448691 /
        562949953421312) (3602879701896397 / 18014398509481984)) 50) 1) =
       5629499534213119 / 1125899906842624"
    by (simp add: late_delta dbl_mul_def dbl_late_delta late_sum)
  show ?thesis
    by (simp add: loop_frame_def Let_def default_step acc dr option.map_comp comp_def)
qed

lemma late_frame_whole:
  "loop_frame (1152921504606847 / 1152921504606846976) 1 body \<lparr>lastTime = 3602879701896397 /
      36028797018963968, accumulator = 0, physics = s\<rparr> (2871044762448691 / 562949953421312) =
     map_option (\<lambda>s'. \<lparr>lastTime = 2871044762448691 / 562949953421312, accumulator = 0, physics =
         s'\<rparr>) (steps body 5 s)"
proof -
  have dr: "drain 1 body 5 s = map_option (\<lambda>s'. (5 - real 5 * 1, s')) (steps body 5 s)"
    by (rule drain_int) simp_all
  have acc:
    "dbl_add 0 (dbl_mul (min (dbl_sub (2871044762448691 / 562949953421312) (3602879701896397 /
        36028797018963968)) 50) 1) =
       5"
    by (simp add: whole_delta dbl_mul_def dbl_add_def dbl_whole)
  show ?thesis
    by (simp add: loop_frame_def Let_def default_step acc dr option.map_comp comp_def)
qed

lemma late_frames_split:
  "loop_frames (1152921504606847 / 1152921504606846976) 1 body \<lparr>lastTime = 3602879701896397 /
      36028797018963968, accumulator = 0, physics = s\<rparr> [3602879701896397 / 18014398509481984,
      2871044762448691 / 562949953421312] =
     map_option (\<lambda>s'. \<lparr>lastTime = 2871044762448691 / 562949953421312, accumulator =
         1125899906842623 / 1125899906842624, physics = s'\<rparr>) (steps body 4 s)"
  by (simp add: late_frame_first late_frame_second)

lemma ups_count_step:
  "ups_body (Some count_step) dt s =
     Some (s\<lparr>stepCount := stepCount s + 1, time := dbl_add (time s) dt\<rparr>)"
  by (simp add: ups_body_def count_step_def Let_def)

lemma count_steps:
  "map_option stepCount (steps (ups_body (Some count_step) dt) k s) = Some (stepCount s + k)"
proof (induction k arbitrary: s)
  case 0
  then show ?case by simp
next
  case (Suc k)
  show ?case
    using Suc.IH [of "s\<lparr>stepCount := stepCount s + 1, time := dbl_add (time s) dt\<rparr>"]
    by (simp add: ups_count_step)
qed

text \<open>The doubles of the literals \<^verbatim>\<open>0.0004\<close>, \<^verbatim>\<open>0.001\<close>, \<^verbatim>\<open>0.1\<close>, \<^verbatim>\<open>0.2\<close> and \<^verbatim>\<open>5.1\<close>.\<close>

lemma dbl_lit_fine: "dbl (1 / 2500) = 7378697629483821 / 18446744073709551616"
  by (rule dbl_evalI [where e = "- 12" and n = 7378697629483821]) (simp_all add: round_even_def)

lemma dbl_lit_milli: "dbl (1 / 1000) = 1152921504606847 / 1152921504606846976"
  by (rule dbl_evalI [where e = "- 10" and n = 4611686018427388]) (simp_all add: round_even_def)

lemma dbl_lit_tenth: "dbl (1 / 10) = 3602879701896397 / 36028797018963968"
  by (rule dbl_evalI [where e = "- 4" and n = 7205759403792794]) (simp_all add: round_even_def)

lemma dbl_lit_fifth: "dbl (1 / 5) = 3602879701896397 / 18014398509481984"
  by (rule dbl_evalI [where e = "- 3" and n = 7205759403792794]) (simp_all add: round_even_def)

lemma dbl_lit_late: "dbl (51 / 10) = 2871044762448691 / 562949953421312"
  by (rule dbl_evalI [where e = "2" and n = 5742089524897382]) (simp_all add: round_even_def)

lemma tub_step_ms: "dbl_mul (dbl tub_DT) 1000 = 100"
  unfolding dbl_mul_def tub_DT_def dbl_lit_tenth
  by (rule dbl_evalI [where e = "6" and n = 7036874417766400]) (simp_all add: round_even_def)

lemma default_step_ms: "dbl_mul (dbl (1 / 1000)) 1000 = 1"
  by (simp add: dbl_lit_milli default_step)

lemma ups_body_total: "ups_body f dt s \<noteq> None"
  by (simp add: ups_body_def Let_def)

lemma tub_body_total: "tub_body m u g w \<noteq> None"
  by (simp add: tub_body_def tub_computePIDPower_def pid_compute_def computePID_def Let_def
      pid_output_def js_div_def js_add_def js_mul_def tub_DT_def split: prod.splits option.splits)

lemma loop_frames_whole_ms:
  assumes step: "dbl_mul dt 1000 \<in> \<int>" "0 < dbl_mul dt 1000"
    and scale: "timeScale \<in> \<int>" "0 \<le> timeScale"
    and frames: "ts \<noteq> []" "set ts \<subseteq> \<int>" "sorted (l # ts)" "last ts - l \<le> 50"
    and start: "l \<in> \<int>" "a \<in> \<int>" "0 \<le> a"
    and bound: "a + (last ts - l) * timeScale < 2 ^ 53"
    and total: "\<And>x. body x \<noteq> None"
  shows "loop_frames dt timeScale body \<lparr>lastTime = l, accumulator = a, physics = s\<rparr> ts =
           loop_frame dt timeScale body \<lparr>lastTime = l, accumulator = a, physics = s\<rparr> (last ts)"
    and "\<exists>s'. steps body (nat \<lfloor>(a + (last ts - l) * timeScale) / dbl_mul dt 1000\<rfloor>) s = Some s'
           \<and> loop_frame dt timeScale body \<lparr>lastTime = l, accumulator = a, physics = s\<rparr> (last ts) =
               Some \<lparr>lastTime = last ts,
                     accumulator = a + (last ts - l) * timeScale
                       - real (nat \<lfloor>(a + (last ts - l) * timeScale) / dbl_mul dt 1000\<rfloor>) * dbl_mul
                           dt 1000,
                     physics = s'\<rparr>"
proof -
  let ?v = "\<lparr>lastTime = l, accumulator = a, physics = s\<rparr>"
  show "loop_frames dt timeScale body ?v ts = loop_frame dt timeScale body ?v (last ts)"
    using frames start bound by (intro loop_frames_last_int [OF step scale]) simp_all
  have "last ts \<in> set ts" using frames(1) by simp
  then have t: "last ts \<in> \<int>" "l \<le> last ts" using frames(2,3) by auto
  obtain s' where s': "steps body (nat \<lfloor>(a + (last ts - l) * timeScale) / dbl_mul dt
      1000\<rfloor>) s = Some s'"
    using steps_total [of body, OF total] by fastforce
  have "loop_frame dt timeScale body ?v (last ts) =
      Some \<lparr>lastTime = last ts,
            accumulator = a + (last ts - l) * timeScale
              - real (nat \<lfloor>(a + (last ts - l) * timeScale) / dbl_mul dt 1000\<rfloor>) * dbl_mul dt 1000,
            physics = s'\<rparr>"
    using loop_frame_int [OF step, of ?v "last ts" timeScale body] start t frames(4) scale bound s'
    by simp
  with s' show "\<exists>s'. steps body (nat \<lfloor>(a + (last ts - l) * timeScale) / dbl_mul dt 1000\<rfloor>) s = Some
      s'
           \<and> loop_frame dt timeScale body ?v (last ts) =
               Some \<lparr>lastTime = last ts,
                     accumulator = a + (last ts - l) * timeScale
                       - real (nat \<lfloor>(a + (last ts - l) * timeScale) / dbl_mul dt 1000\<rfloor>) * dbl_mul
                           dt 1000,
                     physics = s'\<rparr>"
    by blast
qed

section \<open>Frame-rate independence\<close>

text \<open>
  C5 (frame-rate independence), as the code has it: on whole milliseconds. The frames
  are given by their timestamps \<open>ts\<close>, in order after the last frame time \<open>l\<close>, with
  the last one at most 50 ms after \<open>l\<close> (so no frame is capped); \<open>a\<close> is the accumulator
  the run starts with. If the timestamps, \<open>l\<close> and \<open>a\<close> are whole numbers, then

  \<^item> for the loop of usePhysicsSimulation.js, with a time scale that is a whole number
    and a \<open>dt\<close> for which \<^verbatim>\<open>dt * 1000\<close> is a positive whole number, the total
    \<open>a + (last ts - l) * timeScale\<close> being below \<open>2 ^ 53\<close>: running the frames one after
    the other leaves the loop in the same state as one frame at the last timestamp;
    the loop returns, after exactly \<open>\<lfloor>total / (dt * 1000)\<rfloor>\<close> physics steps applied in a
    row to the starting state, and leaves the remainder in the accumulator;

  \<^item> for the loop of HotTub.jsx, whose time scale is 600 and whose step is 100 ms, the
    same holds when \<open>a + (last ts - l) * 600\<close> is below \<open>2 ^ 53\<close>.

  Every sum, product and difference of the loop is then a whole number below \<open>2 ^ 53\<close>,
  which a double holds exactly. Off the whole numbers the accumulator is rounded at
  every operation and the equality can fail, as shown below.
\<close>

theorem frame_rate_independence_on_whole_milliseconds:
  assumes frames: "ts \<noteq> []" "set ts \<subseteq> \<int>" "sorted (l # ts)" "last ts - l \<le> 50"
    and start: "l \<in> \<int>" "a \<in> \<int>" "0 \<le> a"
  shows
    "(dbl_mul dt 1000 \<in> \<int> \<and> 0 < dbl_mul dt 1000 \<and> timeScale \<in> \<int> \<and> 0 \<le> timeScale
        \<and> a + (last ts - l) * timeScale < 2 ^ 53 \<longrightarrow>
      (let v = \<lparr>lastTime = l, accumulator = a, physics = s\<rparr>;
           total = a + (last ts - l) * timeScale;
           k = nat \<lfloor>total / dbl_mul dt 1000\<rfloor>
       in ups_loops dt timeScale f v ts = ups_loop dt timeScale f v (last ts)
          \<and> (\<exists>s'. steps (ups_body f dt) k s = Some s'
                \<and> ups_loop dt timeScale f v (last ts) =
                    Some \<lparr>lastTime = last ts, accumulator = total - real k * dbl_mul dt 1000,
                          physics = s'\<rparr>)))
     \<and> (a + (last ts - l) * tub_TIME_SCALE < 2 ^ 53 \<longrightarrow>
      (let w = \<lparr>lastTime = l, accumulator = a, physics = x\<rparr>;
           total = a + (last ts - l) * tub_TIME_SCALE;
           k = nat \<lfloor>total / 100\<rfloor>
       in tub_loops controlMode userInput g w ts = tub_loop controlMode userInput g w (last ts)
          \<and> (\<exists>x'. steps (tub_body controlMode userInput g) k x = Some x'
                \<and> tub_loop controlMode userInput g w (last ts) =
                    Some \<lparr>lastTime = last ts, accumulator = total - real k * 100,
                          physics = x'\<rparr>)))"
proof (intro conjI impI)
  assume h: "dbl_mul dt 1000 \<in> \<int> \<and> 0 < dbl_mul dt 1000 \<and> timeScale \<in> \<int> \<and> 0 \<le> timeScale
        \<and> a + (last ts - l) * timeScale < 2 ^ 53"
  then have step: "dbl_mul dt 1000 \<in> \<int>" "0 < dbl_mul dt 1000"
    and scale: "timeScale \<in> \<int>" "0 \<le> timeScale"
    and bound: "a + (last ts - l) * timeScale < 2 ^ 53"
    by blast+
  note r = loop_frames_whole_ms [OF step scale frames start bound, of "ups_body f dt" s,
      OF ups_body_total]
  show "let v = \<lparr>lastTime = l, accumulator = a, physics = s\<rparr>;
           total = a + (last ts - l) * timeScale;
           k = nat \<lfloor>total / dbl_mul dt 1000\<rfloor>
       in ups_loops dt timeScale f v ts = ups_loop dt timeScale f v (last ts)
          \<and> (\<exists>s'. steps (ups_body f dt) k s = Some s'
                \<and> ups_loop dt timeScale f v (last ts) =
                    Some \<lparr>lastTime = last ts, accumulator = total - real k * dbl_mul dt 1000,
                          physics = s'\<rparr>)"
    unfolding Let_def ups_loops_def ups_loop_def using r by blast
next
  assume bound: "a + (last ts - l) * tub_TIME_SCALE < 2 ^ 53"
  have step: "dbl_mul (dbl tub_DT) 1000 \<in> \<int>" "0 < dbl_mul (dbl tub_DT) 1000"
    by (simp_all add: tub_step_ms)
  have scale: "tub_TIME_SCALE \<in> \<int>" "0 \<le> tub_TIME_SCALE"
    by (simp_all add: tub_TIME_SCALE_def)
  note r = loop_frames_whole_ms [OF step scale frames start bound,
      of "tub_body controlMode userInput g" x, OF tub_body_total, unfolded tub_step_ms]
  show "let w = \<lparr>lastTime = l, accumulator = a, physics = x\<rparr>;
           total = a + (last ts - l) * tub_TIME_SCALE;
           k = nat \<lfloor>total / 100\<rfloor>
       in tub_loops controlMode userInput g w ts = tub_loop controlMode userInput g w (last ts)
          \<and> (\<exists>x'. steps (tub_body controlMode userInput g) k x = Some x'
                \<and> tub_loop controlMode userInput g w (last ts) =
                    Some \<lparr>lastTime = last ts, accumulator = total - real k * 100,
                          physics = x'\<rparr>)"
    unfolding Let_def tub_loops_def tub_loop_def using r by blast
qed

theorem frame_rate_independence_on_whole_milliseconds_witness:
  "ups_loops (dbl (1 / 1000)) 1 (Some count_step)
      \<lparr>lastTime = 0, accumulator = 0, physics = \<lparr>time = 0, stepCount = 0\<rparr>\<rparr> [16, 32, 48] =
    ups_loop (dbl (1 / 1000)) 1 (Some count_step)
      \<lparr>lastTime = 0, accumulator = 0, physics = \<lparr>time = 0, stepCount = 0\<rparr>\<rparr> 48
   \<and> map_option (\<lambda>v. (lastTime v, accumulator v, stepCount (physics v)))
       (ups_loop (dbl (1 / 1000)) 1 (Some count_step)
          \<lparr>lastTime = 0, accumulator = 0, physics = \<lparr>time = 0, stepCount = 0\<rparr>\<rparr> 48) =
      Some (48, 0, 48)
   \<and> tub_loops UserMode 0 \<lparr>kp = 0, ki = 0, kd = 0\<rparr>
      \<lparr>lastTime = 0, accumulator = 0,
       physics = \<lparr>controller = pid_create,
         tub = \<lparr>time = 0, setpoint = 38, temperature = 20, ambient = 20, heaterPower = 0\<rparr>\<rparr>\<rparr>
      [16, 32, 48] =
    tub_loop UserMode 0 \<lparr>kp = 0, ki = 0, kd = 0\<rparr>
      \<lparr>lastTime = 0, accumulator = 0,
       physics = \<lparr>controller = pid_create,
         tub = \<lparr>time = 0, setpoint = 38, temperature = 20, ambient = 20, heaterPower = 0\<rparr>\<rparr>\<rparr> 48
   \<and> map_option (\<lambda>v. (lastTime v, accumulator v))
       (tub_loop UserMode 0 \<lparr>kp = 0, ki = 0, kd = 0\<rparr>
          \<lparr>lastTime = 0, accumulator = 0,
           physics = \<lparr>controller = pid_create,
             tub = \<lparr>time = 0, setpoint = 38, temperature = 20, ambient = 20, heaterPower =
                 0\<rparr>\<rparr>\<rparr> 48) =
      Some (48, 0)"
proof -
  let ?c = "\<lparr>time = 0, stepCount = 0\<rparr>"
  let ?x = "\<lparr>controller = pid_create,
         tub = \<lparr>time = 0, setpoint = 38, temperature = 20, ambient = 20, heaterPower = 0\<rparr>\<rparr>"
  have n:
    "map_option stepCount (steps (ups_body (Some count_step) (dbl (1 / 1000))) 48 ?c) =
       Some 48"
    using count_steps [of "dbl (1 / 1000)" 48 ?c] by simp
  show ?thesis
    using frame_rate_independence_on_whole_milliseconds
      [where ts = "[16, 32, 48]" and l = 0 and a = 0 and timeScale = 1 and dt = "dbl (1 / 1000)"
        and f = "Some count_step" and s = ?c and x = ?x and controlMode = UserMode
        and userInput = 0 and g = "\<lparr>kp = 0, ki = 0, kd = 0\<rparr>"] n
    by (auto simp add: Let_def default_step_ms tub_TIME_SCALE_def)
qed

text \<open>
  Off the whole milliseconds the number of steps depends on how the frames split the
  time. With \<^verbatim>\<open>dt = 0.0004\<close> the step \<^verbatim>\<open>dt * 1000\<close> is a double just above 0.4, and two
  frames of 1 ms run two steps each while one frame of 2 ms runs five: draining
  one millisecond at a time rounds the remainders differently. With the default
  \<^verbatim>\<open>dt = 0.001\<close> and a start at \<^verbatim>\<open>0.1\<close>, frames at \<^verbatim>\<open>0.2\<close> and \<^verbatim>\<open>5.1\<close> run four steps,
  since the two rounded deltas add up to a double just below 5, while one frame at
  \<^verbatim>\<open>5.1\<close> has a delta of exactly 5 and runs five steps. The steps are counted by the
  \<^verbatim>\<open>onPhysicsStep\<close> callback.
\<close>

theorem frame_split_changes_step_count_counterexample:
  "map_option (\<lambda>v. stepCount (physics v))
      (ups_loops (dbl (4 / 10000)) 1 (Some count_step)
         \<lparr>lastTime = 0, accumulator = 0, physics = \<lparr>time = 0, stepCount = 0\<rparr>\<rparr> [1, 2]) = Some 4
   \<and> map_option (\<lambda>v. stepCount (physics v))
      (ups_loop (dbl (4 / 10000)) 1 (Some count_step)
         \<lparr>lastTime = 0, accumulator = 0, physics = \<lparr>time = 0, stepCount = 0\<rparr>\<rparr> 2) = Some 5
   \<and> map_option (\<lambda>v. stepCount (physics v))
      (ups_loops (dbl (1 / 1000)) 1 (Some count_step)
         \<lparr>lastTime = dbl (1 / 10), accumulator = 0, physics = \<lparr>time = 0, stepCount = 0\<rparr>\<rparr>
         [dbl (2 / 10), dbl (51 / 10)]) = Some 4
   \<and> map_option (\<lambda>v. stepCount (physics v))
      (ups_loop (dbl (1 / 1000)) 1 (Some count_step)
         \<lparr>lastTime = dbl (1 / 10), accumulator = 0, physics = \<lparr>time = 0, stepCount = 0\<rparr>\<rparr>
         (dbl (51 / 10))) = Some 5"
proof -
  have n:
    "map_option stepCount (steps (ups_body (Some count_step) dt) k \<lparr>time = 0, stepCount = 0\<rparr>) =
       Some k"
    for dt k
    using count_steps [of dt k "\<lparr>time = 0, stepCount = 0\<rparr>"] by simp
  show ?thesis
    by (simp add: ups_loops_def ups_loop_def dbl_lit_fine dbl_lit_milli dbl_lit_tenth dbl_lit_fifth
        dbl_lit_late fine_frames_split fine_frame_whole late_frames_split late_frame_whole
        option.map_comp comp_def n del: loop_frames.simps)
qed

end
